theory Spec2Isabelle
  imports Complex_Main "HOL-Library.AList" "HOL-Library.Sublist"
begin

section \<open>Strings\<close>

text \<open>
  A JavaScript string is a sequence of UTF-16 code units. The development uses
  \<^typ>\<open>string\<close>, whose characters are the code units below 256 (ASCII and Latin-1).
  The prompt builder only concatenates strings; the extractor also lower-cases, trims and
  matches them, and those operations are written out for this range of code units.
\<close>

text \<open>\<^verbatim>\<open>Array.prototype.join\<close> with a separator.\<close>

fun join :: "string \<Rightarrow> string list \<Rightarrow> string" where
  "join sep [] = []"
| "join sep [x] = x"
| "join sep (x # y # ys) = x @ sep @ join sep (y # ys)"

section \<open>The prompt builder (\<^verbatim>\<open>buildComprehensivePrompt\<close>)\<close>

text \<open>
  \<^verbatim>\<open>productType\<close> is an optional parameter: \<open>None\<close> is \<^verbatim>\<open>undefined\<close>. The test
  \<^verbatim>\<open>if (productType)\<close> is false for \<^verbatim>\<open>undefined\<close> and for the empty string.
  \<^verbatim>\<open>checkboxQuestions\<close> is an array of option names, tested with \<^verbatim>\<open>includes\<close>.
  The function \<open>categories\<close> is the local array \<^verbatim>\<open>categories\<close> after the last
  \<^verbatim>\<open>push\<close>: each \<open>let\<close> is one statement of the source, in its order.
\<close>

definition categories :: "string list \<Rightarrow> string option \<Rightarrow> string list \<Rightarrow> string list" where
  "categories questions productType checkboxQuestions =
    (let c0 = [];
         c1 = (case productType of
                 None \<Rightarrow> c0
               | Some pt \<Rightarrow>
                   if pt \<noteq> [] then c0 @ [''product type (this is a '' @ pt @ '' product)'']
                   else c0);
         c2 = (if length questions > 0 then foldl (\<lambda>c question. c @ [question]) c1 questions
               else c1);
         c3 = (if ''productTitle'' \<in> set checkboxQuestions
               then c2 @ [''product title (compelling, SEO-friendly product title)'']
               else c2);
         c4 = (if ''productDescription'' \<in> set checkboxQuestions
               then c3 @ [''product description (detailed description suitable for e-commerce listing)'']
               else c3);
         c5 = (if ''colorVariant'' \<in> set checkboxQuestions
               then c4 @ [''color variants (primary colors and color variants visible)'']
               else c4);
         c6 = (if ''seoDescription'' \<in> set checkboxQuestions
               then c5 @ [''SEO description (SEO-optimized meta description under 160 characters)'']
               else c5);
         c7 = (if ''productTags'' \<in> set checkboxQuestions
               then c6 @ [''product tags (5-10 relevant product tags and keywords, comma-separated)'']
               else c6);
         c8 = (if ''altText'' \<in> set checkboxQuestions
               then c7 @ [''alt text (descriptive alt text for accessibility)'']
               else c7)
     in c8)"

text \<open>
  The template literal of the source starts on the line after the back quote, and each of
  its three lines is indented by nine spaces; the first two end in a space before the line
  break. \<open>line_break\<close> is the line feed and the nine spaces that open each line.
\<close>

definition line_break :: string where
  "line_break = CHR 0x0A # ''         ''"

definition buildComprehensivePrompt :: "string list \<Rightarrow> string option \<Rightarrow> string list \<Rightarrow> string" where
  "buildComprehensivePrompt questions productType checkboxQuestions =
    (let categoriesString = join '', '' (categories questions productType checkboxQuestions)
     in line_break
        @ ''Analyze the image provided and determine the categories of: '' @ categoriesString @ ''. ''
        @ line_break
        @ ''Report the values of the categories as classLabels. Be very careful to place these values correctly. ''
        @ line_break
        @ ''If you are unable to provide a category with a value then set its classLabel to null.'')"


text \<open>
  The specification's words, for comparison with the source: its one-line output template,
  its table of content options in declaration order with their fixed phrases, the four
  person-oriented options, and the person-mode preamble.
\<close>

definition prompt_template :: "string \<Rightarrow> string" where
  "prompt_template categoriesString =
     ''Analyze the image provided and determine the categories of: '' @ categoriesString
     @ ''. Report the values of the categories as classLabels. Be very careful to place these values correctly. If you are unable to provide a category with a value then set its classLabel to null.''"

definition content_option_phrases :: "(string \<times> string) list" where
  "content_option_phrases =
    [(''productTitle'', ''product title (compelling, SEO-friendly product title)''),
     (''productDescription'', ''product description (detailed description suitable for e-commerce listing)''),
     (''colorVariant'', ''color variants (primary colors and color variants visible)''),
     (''seoDescription'', ''SEO description (SEO-optimized meta description under 160 characters)''),
     (''productTags'', ''product tags (5-10 relevant product tags and keywords, comma-separated)''),
     (''altText'', ''alt text (descriptive alt text for accessibility)'')]"

definition person_options :: "string list" where
  "person_options = [''ageRange'', ''gender'', ''fashionStyle'', ''outfitDescription'']"

definition person_preamble :: string where
  "person_preamble = ''For any people in the image, analyze: Age (report as range, ex. 20s), Gender (Male/Female), Fashion style (Casual, Formal, Bohemian, Streetwear, Vintage, Chic, Sporty, Edgy), and describe their outfit.''"

section \<open>String operations of the extractor\<close>

text \<open>
  White space as \<^verbatim>\<open>String.prototype.trim\<close> and the regular expression class \<^verbatim>\<open>\s\<close> see
  it, among the code units below 256: tab, line feed, vertical tab, form feed, carriage
  return, space and no-break space. The line terminators, which \<^verbatim>\<open>.\<close> does not match, are
  line feed and carriage return.
\<close>

definition is_space :: "char \<Rightarrow> bool" where
  "is_space c = (c \<in> set [CHR 0x09, CHR 0x0A, CHR 0x0B, CHR 0x0C, CHR 0x0D, CHR 0x20, CHR 0xA0])"

definition is_line_terminator :: "char \<Rightarrow> bool" where
  "is_line_terminator c = (c \<in> set [CHR 0x0A, CHR 0x0D])"

definition is_digit :: "char \<Rightarrow> bool" where
  "is_digit c = (c \<in> set ''0123456789'')"

definition trim :: "string \<Rightarrow> string" where
  "trim s = rev (dropWhile is_space (rev (dropWhile is_space s)))"

text \<open>
  \<^verbatim>\<open>toLowerCase\<close> on code units below 256: the letters A to Z, and the Latin-1 capitals
  0xC0 to 0xDE without the multiplication sign 0xD7, go to the code unit 32 above; every
  other code unit stays. The two lists pair each capital with its small letter.
\<close>

definition upper_case :: string where
  "upper_case = ''ABCDEFGHIJKLMNOPQRSTUVWXYZ'' @
     [CHR 0xC0, CHR 0xC1, CHR 0xC2, CHR 0xC3, CHR 0xC4, CHR 0xC5, CHR 0xC6, CHR 0xC7, CHR 0xC8, CHR 0xC9,
      CHR 0xCA, CHR 0xCB, CHR 0xCC, CHR 0xCD, CHR 0xCE, CHR 0xCF, CHR 0xD0, CHR 0xD1, CHR 0xD2, CHR 0xD3,
      CHR 0xD4, CHR 0xD5, CHR 0xD6, CHR 0xD8, CHR 0xD9, CHR 0xDA, CHR 0xDB, CHR 0xDC, CHR 0xDD, CHR 0xDE]"

definition lower_case :: string where
  "lower_case = ''abcdefghijklmnopqrstuvwxyz'' @
     [CHR 0xE0, CHR 0xE1, CHR 0xE2, CHR 0xE3, CHR 0xE4, CHR 0xE5, CHR 0xE6, CHR 0xE7, CHR 0xE8, CHR 0xE9,
      CHR 0xEA, CHR 0xEB, CHR 0xEC, CHR 0xED, CHR 0xEE, CHR 0xEF, CHR 0xF0, CHR 0xF1, CHR 0xF2, CHR 0xF3,
      CHR 0xF4, CHR 0xF5, CHR 0xF6, CHR 0xF8, CHR 0xF9, CHR 0xFA, CHR 0xFB, CHR 0xFC, CHR 0xFD, CHR 0xFE]"

definition to_lower_char :: "char \<Rightarrow> char" where
  "to_lower_char c = (case map_of (zip upper_case lower_case) c of Some l \<Rightarrow> l | None \<Rightarrow> c)"

definition toLowerCase :: "string \<Rightarrow> string" where
  "toLowerCase s = map to_lower_char s"

text \<open>
  \<^verbatim>\<open>s.replace(/\s+/g, r)\<close>: every maximal run of white space becomes the one character
  \<open>r\<close>. The flag says whether the previous character was white space.
\<close>

fun replace_ws_runs :: "char \<Rightarrow> bool \<Rightarrow> string \<Rightarrow> string" where
  "replace_ws_runs r in_run [] = []"
| "replace_ws_runs r in_run (c # cs) =
     (if is_space c then (if in_run then replace_ws_runs r True cs else r # replace_ws_runs r True cs)
      else c # replace_ws_runs r False cs)"

text \<open>
  \<^verbatim>\<open>String.prototype.split\<close> on a separator of one character: the empty string gives one
  empty part, and a separator at either end gives an empty part there.
\<close>

fun split_on :: "(char \<Rightarrow> bool) \<Rightarrow> string \<Rightarrow> string list" where
  "split_on sep [] = [[]]"
| "split_on sep (c # cs) =
     (if sep c then [] # split_on sep cs
      else (case split_on sep cs of [] \<Rightarrow> [[c]] | part # parts \<Rightarrow> (c # part) # parts))"

subsection \<open>Numbers and \<^verbatim>\<open>parseFloat\<close>\<close>

text \<open>
  A JavaScript number is an IEEE 754 double. The numbers the extractor can hold come from
  \<^verbatim>\<open>parseFloat\<close> and are never \<^verbatim>\<open>NaN\<close> (the source tests for it), so a number is a sign
  with either the exact rational magnitude of a double or infinity; the sign is kept apart
  because \<^verbatim>\<open>-0\<close> is a number of its own.
\<close>

datatype jsnumber = Double bool rat | Infinity bool

text \<open>
  Rounding a positive rational to the nearest double, ties to even, which is how a decimal
  literal becomes a number. \<open>floor_log2 q\<close> is the exponent \<open>e\<close> with
  \<open>2^e \<le> q < 2^(e+1)\<close>, found from the bit lengths of numerator and denominator. Below
  \<open>2^-1022\<close> the doubles are subnormal and the spacing stays at \<open>2^-1074\<close>. The magnitude
  is rounded to a multiple \<open>m\<close> of the spacing \<open>2^(e-52)\<close> of its binade; from \<open>2^1024\<close> on,
  that is for \<open>e\<close> above 1023, or \<open>e = 1023\<close> with \<open>m\<close> rounded up to \<open>2^53\<close>, the result is
  infinity.
\<close>

function bit_length :: "int \<Rightarrow> int" where
  "bit_length a = (if a \<le> 0 then 0 else 1 + bit_length (a div 2))"
  by pat_completeness auto
termination
  by (relation "measure nat") auto

declare bit_length.simps [simp del]

definition pow2 :: "int \<Rightarrow> rat" where
  "pow2 e = (if 0 \<le> e then 2 ^ nat e else 1 / 2 ^ nat (- e))"

definition floor_log2 :: "rat \<Rightarrow> int" where
  "floor_log2 q =
    (let (a, b) = quotient_of q;
         d = bit_length a - bit_length b
     in if pow2 d \<le> q then d else d - 1)"

definition round_half_even :: "rat \<Rightarrow> int" where
  "round_half_even x =
    (let f = \<lfloor>x\<rfloor>; d = x - of_int f
     in if d < 1 / 2 then f else if 1 / 2 < d then f + 1 else if even f then f else f + 1)"

definition to_double :: "bool \<Rightarrow> rat \<Rightarrow> jsnumber" where
  "to_double negative q =
    (if q = 0 then Double negative 0
     else
       let e = max (floor_log2 q) (- 1022)
       in if 1023 < e then Infinity negative
          else
            let ulp = pow2 (e - 52);
                m = round_half_even (q / ulp)
            in if e = 1023 \<and> 9007199254740992 \<le> m then Infinity negative
               else Double negative (of_int m * ulp))"

text \<open>
  The source calls \<^verbatim>\<open>parseFloat\<close> on a string from which every character but digits, the
  full stop and the minus sign has been removed, so neither white space, a plus sign, an
  exponent nor \<^verbatim>\<open>Infinity\<close> can occur. \<^verbatim>\<open>parseFloat\<close> reads the longest prefix that is a
  decimal literal: an optional sign, then digits with an optional fraction, or a full stop
  and digits; with no such prefix the result is \<^verbatim>\<open>NaN\<close>, here \<open>None\<close>. Otherwise the result
  is the double nearest to the decimal read, with its sign.
\<close>

definition digit_val :: "char \<Rightarrow> int" where
  "digit_val c = of_char c - 48"

definition decimal :: "string \<Rightarrow> int" where
  "decimal ds = foldl (\<lambda>n c. 10 * n + digit_val c) 0 ds"

definition parseFloat :: "string \<Rightarrow> jsnumber option" where
  "parseFloat s =
    (let negative = (case s of [] \<Rightarrow> False | c # _ \<Rightarrow> c = CHR ''-'');
         unsigned = (if negative then tl s else s);
         int_part = takeWhile is_digit unsigned;
         after_int = dropWhile is_digit unsigned;
         frac_part = (case after_int of [] \<Rightarrow> [] | c # cs \<Rightarrow> if c = CHR ''.'' then takeWhile is_digit cs else []);
         magnitude = of_int (decimal int_part) + of_int (decimal frac_part) / 10 ^ length frac_part
     in if int_part = [] \<and> frac_part = [] then None
        else Some (to_double negative magnitude))"

section \<open>The response extractor (\<^verbatim>\<open>parseVisualIntelligenceResponse\<close>)\<close>

subsection \<open>Values and the object \<^verbatim>\<open>extractedData\<close>\<close>

text \<open>
  The values the extractor stores: \<^verbatim>\<open>null\<close>, a string, a number (the price) and an array
  of strings (the tags).
\<close>

datatype jsval = JNull | JStr string | JNum jsnumber | JArr "string list"

text \<open>
  \<^verbatim>\<open>extractedData\<close> starts as the object literal \<^verbatim>\<open>{}\<close>. \<open>props\<close> are its own properties
  in insertion order, so \<^verbatim>\<open>Object.keys(extractedData).length === 0\<close> is \<open>props = []\<close>.
  (JavaScript lists keys that look like array indices before the others; nothing below
  depends on the order of the keys, only on lookup and on emptiness.)
  An object literal inherits from \<^verbatim>\<open>Object.prototype\<close>, and the source uses computed keys,
  so two things of JavaScript show through and are part of the model:
  \<^item> assigning under the key \<^verbatim>\<open>__proto__\<close> runs the inherited setter: a string is ignored
    and \<^verbatim>\<open>null\<close> removes the prototype, and neither creates a property; \<open>proto_null\<close>
    records that the prototype has been removed, after which \<^verbatim>\<open>__proto__\<close> is a key like
    any other;
  \<^item> reading a key that is not an own property finds the inherited members of
    \<^verbatim>\<open>Object.prototype\<close>, all of them truthy, while the prototype is in place.
\<close>

record jsobj =
  props :: "(string \<times> jsval) list"
  proto_null :: bool

definition empty_object :: jsobj where
  "empty_object = \<lparr>props = [], proto_null = False\<rparr>"

definition own_property :: "jsobj \<Rightarrow> string \<Rightarrow> jsval option" where
  "own_property obj k = map_of (props obj) k"

definition object_prototype_names :: "string list" where
  "object_prototype_names =
    [''constructor'', ''__defineGetter__'', ''__defineSetter__'', ''hasOwnProperty'',
     ''__lookupGetter__'', ''__lookupSetter__'', ''isPrototypeOf'', ''propertyIsEnumerable'',
     ''toString'', ''valueOf'', ''__proto__'', ''toLocaleString'']"

text \<open>An assignment that creates or overwrites an own property.\<close>

definition set_prop :: "jsobj \<Rightarrow> string \<Rightarrow> jsval \<Rightarrow> jsobj" where
  "set_prop obj k v = obj\<lparr>props := AList.update k v (props obj)\<rparr>"

text \<open>
  \<^verbatim>\<open>extractedData[fieldKey] = null\<close> and \<^verbatim>\<open>extractedData[fieldKey] = s\<close> for a string
  \<open>s\<close>, the two assignments the source makes under a computed key.
\<close>

definition setter_applies :: "jsobj \<Rightarrow> string \<Rightarrow> bool" where
  "setter_applies obj k = (k = ''__proto__'' \<and> \<not> proto_null obj \<and> own_property obj k = None)"

definition assign_null :: "jsobj \<Rightarrow> string \<Rightarrow> jsobj" where
  "assign_null obj k = (if setter_applies obj k then obj\<lparr>proto_null := True\<rparr> else set_prop obj k JNull)"

definition assign_string :: "jsobj \<Rightarrow> string \<Rightarrow> string \<Rightarrow> jsobj" where
  "assign_string obj k s = (if setter_applies obj k then obj else set_prop obj k (JStr s))"

text \<open>
  Truthiness of a stored value, and of \<^verbatim>\<open>extractedData[fieldKey]\<close> as the fallback path
  tests it.
\<close>

fun truthy :: "jsval \<Rightarrow> bool" where
  "truthy JNull = False"
| "truthy (JStr s) = (s \<noteq> [])"
| "truthy (JNum (Double negative q)) = (q \<noteq> 0)"
| "truthy (JNum (Infinity negative)) = True"
| "truthy (JArr tags) = True"

definition read_truthy :: "jsobj \<Rightarrow> string \<Rightarrow> bool" where
  "read_truthy obj k =
    (case own_property obj k of
       Some v \<Rightarrow> truthy v
     | None \<Rightarrow> \<not> proto_null obj \<and> k \<in> set object_prototype_names)"

subsection \<open>\<^verbatim>\<open>createFieldMapping\<close>\<close>

definition mappings :: "(string \<times> string) list" where
  "mappings =
    [(''product type'', ''product_type''),
     (''focus object'', ''focus_object''),
     (''product title'', ''product_title''),
     (''title'', ''product_title''),
     (''product name'', ''product_title''),
     (''name'', ''product_title''),
     (''product description'', ''product_description''),
     (''description'', ''product_description''),
     (''product details'', ''product_description''),
     (''details'', ''product_description''),
     (''color'', ''color_variant''),
     (''color variant'', ''color_variant''),
     (''color variants'', ''color_variant''),
     (''variant'', ''color_variant''),
     (''product color'', ''color_variant''),
     (''seo description'', ''seo_description''),
     (''seo'', ''seo_description''),
     (''meta description'', ''seo_description''),
     (''product tags'', ''product_tags''),
     (''tags'', ''product_tags''),
     (''keywords'', ''product_tags''),
     (''product keywords'', ''product_tags''),
     (''alt text'', ''alt_text''),
     (''alt'', ''alt_text''),
     (''image alt text'', ''alt_text''),
     (''image description'', ''alt_text''),
     (''price'', ''price''),
     (''product price'', ''price''),
     (''cost'', ''price''),
     (''amount'', ''price''),
     (''size'', ''size''),
     (''chest size'', ''chest_size'')]"

text \<open>
  \<^verbatim>\<open>mappings[normalized]\<close>. The table is an object literal too, so for the two names of
  \<^verbatim>\<open>Object.prototype\<close> that a lower-cased string can spell the lookup finds the inherited
  member instead of \<^verbatim>\<open>undefined\<close>: the function \<^verbatim>\<open>Object\<close> for \<^verbatim>\<open>constructor\<close> and the
  prototype object for \<^verbatim>\<open>__proto__\<close>. Both are truthy and are returned as the field key;
  used as a property key they are converted to the strings given here (as Node.js prints
  them), which are different from every key the source compares with.
\<close>

definition mappings_lookup :: "string \<Rightarrow> string option" where
  "mappings_lookup normalized =
    (case map_of mappings normalized of
       Some mappedField \<Rightarrow> Some mappedField
     | None \<Rightarrow>
         if normalized = ''constructor'' then Some ''function Object() { [native code] }''
         else if normalized = ''__proto__'' then Some ''[object Object]''
         else None)"

text \<open>The characters that \<^verbatim>\<open>replace(/[^a-z0-9_]/g, '')\<close> keeps.\<close>

definition is_key_char :: "char \<Rightarrow> bool" where
  "is_key_char c = (c \<in> set ''abcdefghijklmnopqrstuvwxyz0123456789_'')"

definition createFieldMapping :: "string \<Rightarrow> string" where
  "createFieldMapping categoryNameFromAI =
    (if trim categoryNameFromAI = [] then ''unknown_field''
     else
       let normalized = replace_ws_runs (CHR '' '') False (trim (toLowerCase categoryNameFromAI))
       in case mappings_lookup normalized of
            Some mappedField \<Rightarrow> mappedField
          | None \<Rightarrow>
              let sanitized = filter is_key_char (replace_ws_runs (CHR ''_'') False normalized)
              in if sanitized \<noteq> [] then sanitized else ''unknown_field'')"

subsection \<open>The structured path\<close>

text \<open>
  A classification item of the reply. \<open>None\<close> is a field that is missing, \<^verbatim>\<open>undefined\<close> or
  \<^verbatim>\<open>null\<close>; the confidence of an item is only logged. A processed result carries an
  optional text and an optional list of items.
\<close>

record ClassificationItem =
  category :: "string option"
  classLabel :: "string option"

record ProcessedResult =
  result_text :: "string option"
  classes :: "ClassificationItem list option"

record ParsedResponse =
  rawResults :: "ProcessedResult list"
  response_text :: string
  extractedData :: jsobj

text \<open>The characters that \<^verbatim>\<open>replace(/[^\d.-]/g, '')\<close> keeps.\<close>

definition is_price_char :: "char \<Rightarrow> bool" where
  "is_price_char c = (is_digit c \<or> c = CHR ''.'' \<or> c = CHR ''-'')"

definition split_tags :: "string \<Rightarrow> string list" where
  "split_tags extractedValue =
     filter (\<lambda>tag. tag \<noteq> []) (map trim (split_on (\<lambda>c. c = CHR '','' \<or> c = CHR '';'') extractedValue))"

text \<open>
  The body of the loop over \<^verbatim>\<open>firstResult.classes\<close>. The state is \<^verbatim>\<open>extractedData\<close> and
  the local \<^verbatim>\<open>combinedText\<close>.
\<close>

definition processClassItem :: "ClassificationItem \<Rightarrow> jsobj \<times> string \<Rightarrow> jsobj \<times> string" where
  "processClassItem classItem state =
    (case category classItem of
       None \<Rightarrow> state
     | Some categoryNameFromAI \<Rightarrow>
         if categoryNameFromAI = [] then state
         else
           let valueFromAI = classLabel classItem;
               fieldKey = createFieldMapping categoryNameFromAI
           in if fieldKey = [] then state
              else
                let extractedValue = (if valueFromAI = Some ''null'' then None else valueFromAI);
                    data = fst state;
                    data' =
                      (case extractedValue of
                         Some v \<Rightarrow>
                           if fieldKey = ''product_tags'' then set_prop data ''product_tags'' (JArr (split_tags v))
                           else if fieldKey = ''price'' then
                             (case parseFloat (filter is_price_char v) of
                                Some priceValue \<Rightarrow> set_prop data ''price'' (JNum priceValue)
                              | None \<Rightarrow> set_prop data ''price_text'' (JStr v))
                           else assign_string data fieldKey v
                       | None \<Rightarrow> assign_null data fieldKey)
                in (data',
                    snd state @ categoryNameFromAI @ '': ''
                      @ (case extractedValue of None \<Rightarrow> ''null'' | Some v \<Rightarrow> v) @ [CHR 0x0A]))"

fun processClasses :: "ClassificationItem list \<Rightarrow> jsobj \<times> string \<Rightarrow> jsobj \<times> string" where
  "processClasses [] state = state"
| "processClasses (classItem # rest) state = processClasses rest (processClassItem classItem state)"

definition structuredPath :: "ClassificationItem list \<Rightarrow> ParsedResponse \<Rightarrow> ParsedResponse" where
  "structuredPath items parsedResponse =
    (let state = processClasses items (extractedData parsedResponse, []);
         combinedText = snd state
     in parsedResponse
          \<lparr>response_text := (if trim combinedText \<noteq> [] then trim combinedText else response_text parsedResponse),
           extractedData := fst state\<rparr>)"

subsection \<open>The fallback path\<close>

text \<open>
  \<^verbatim>\<open>line.match(/^([^:]+):\s*(.+)$/)\<close>, giving the two groups. The first group is the text
  before the first colon and must not be empty. After the colon \<^verbatim>\<open>\s*\<close> takes the white
  space and the second group the rest, which must not be empty and, since \<^verbatim>\<open>.\<close> matches no
  line terminator and \<^verbatim>\<open>$\<close> is the end of the string, must hold no line terminator. When
  only white space follows the colon, \<^verbatim>\<open>\s*\<close> gives back its last character to the second
  group.
\<close>

definition match_key_value :: "string \<Rightarrow> (string \<times> string) option" where
  "match_key_value line =
    (let key = takeWhile (\<lambda>c. c \<noteq> CHR '':'') line;
         rest = dropWhile (\<lambda>c. c \<noteq> CHR '':'') line
     in if key = [] then None
        else case rest of
          [] \<Rightarrow> None
        | colon # after \<Rightarrow>
            let v = dropWhile is_space after
            in if v \<noteq> [] then (if list_ex is_line_terminator v then None else Some (key, v))
               else if after \<noteq> [] \<and> \<not> is_line_terminator (last after) then Some (key, [last after])
               else None)"

definition processLine :: "string \<Rightarrow> jsobj \<Rightarrow> jsobj" where
  "processLine line data =
    (case match_key_value line of
       None \<Rightarrow> data
     | Some (group1, group2) \<Rightarrow>
         let keyFromText = trim group1;
             valueFromText = trim group2;
             fieldKey = createFieldMapping keyFromText
         in if fieldKey \<noteq> [] \<and> \<not> read_truthy data fieldKey
            then assign_string data fieldKey valueFromText
            else data)"

fun processLines :: "string list \<Rightarrow> jsobj \<Rightarrow> jsobj" where
  "processLines [] data = data"
| "processLines (line # rest) data = processLines rest (processLine line data)"

definition fallbackPath :: "string \<Rightarrow> ParsedResponse \<Rightarrow> ParsedResponse" where
  "fallbackPath firstText parsedResponse =
    (let lines = filter (\<lambda>line. trim line \<noteq> []) (split_on (\<lambda>c. c = CHR 0x0A) firstText)
     in parsedResponse
          \<lparr>response_text := firstText,
           extractedData := processLines lines (extractedData parsedResponse)\<rparr>)"

subsection \<open>The operation\<close>

definition parseVisualIntelligenceResponse :: "ProcessedResult list \<Rightarrow> ParsedResponse" where
  "parseVisualIntelligenceResponse processedResults =
    (let parsedResponse = \<lparr>rawResults = processedResults, response_text = [], extractedData = empty_object\<rparr>
     in case processedResults of
          [] \<Rightarrow> parsedResponse
        | firstResult # others \<Rightarrow>
            (let afterClasses =
                   (case classes firstResult of
                      None \<Rightarrow> parsedResponse
                    | Some items \<Rightarrow>
                        if length items > 0 then structuredPath items parsedResponse else parsedResponse)
             in (case result_text firstResult of
                   None \<Rightarrow> afterClasses
                 | Some firstText \<Rightarrow>
                     if props (extractedData afterClasses) = [] \<and> firstText \<noteq> []
                     then fallbackPath firstText afterClasses
                     else afterClasses)))"

subsection \<open>The operation on a reply of any shape\<close>

text \<open>
  The parameter of the source is typed \<^verbatim>\<open>any[]\<close>, and a reply that is not made of the
  records above makes the operation throw a \<^verbatim>\<open>TypeError\<close>. The shapes that matter:
  \<^item> an element of the list that is \<^verbatim>\<open>null\<close> or \<^verbatim>\<open>undefined\<close> instead of an object: the
    opening \<^verbatim>\<open>console.log\<close> reads \<^verbatim>\<open>r.text\<close> of every element;
  \<^item> a text that is neither missing (\<^verbatim>\<open>undefined\<close>, \<^verbatim>\<open>null\<close>) nor a string: the same log
    calls \<^verbatim>\<open>r.text?.substring\<close>, which such a value does not have;
  \<^item> an item of the first result's classes that is \<^verbatim>\<open>null\<close> or \<^verbatim>\<open>undefined\<close>: the loop
    logs \<^verbatim>\<open>classItem.category\<close> before it tests it.
  Classes are missing or an array; the fields of an item that is an object are as before.
  A throw abandons the call, so the result is the error alone. The opening log runs first,
  so an element that is not an object, or a text of another kind, never reaches the later
  case distinctions on the first result.
\<close>

datatype error = TypeError

datatype raw_item = NullItem | Item ClassificationItem

datatype raw_text = TextAbsent | TextString string | TextOther

datatype raw_classes = ClassesAbsent | ClassesArray "raw_item list"

datatype raw_result = NullResult | Result raw_text raw_classes

record AnyParsedResponse =
  any_rawResults :: "raw_result list"
  any_text :: string
  any_extractedData :: jsobj

text \<open>The preview object that the opening log builds for one element of the list.\<close>

definition logPreview :: "raw_result \<Rightarrow> error + unit" where
  "logPreview r =
    (case r of
       NullResult \<Rightarrow> Inl TypeError
     | Result t c \<Rightarrow> (case t of TextOther \<Rightarrow> Inl TypeError | TextAbsent \<Rightarrow> Inr () | TextString s \<Rightarrow> Inr ()))"

fun logPreviews :: "raw_result list \<Rightarrow> error + unit" where
  "logPreviews [] = Inr ()"
| "logPreviews (r # rs) = (case logPreview r of Inl e \<Rightarrow> Inl e | Inr u \<Rightarrow> logPreviews rs)"

fun processAnyClasses :: "raw_item list \<Rightarrow> jsobj \<times> string \<Rightarrow> error + jsobj \<times> string" where
  "processAnyClasses [] state = Inr state"
| "processAnyClasses (NullItem # rest) state = Inl TypeError"
| "processAnyClasses (Item classItem # rest) state = processAnyClasses rest (processClassItem classItem state)"

definition parseVisualIntelligenceResponse_any :: "raw_result list \<Rightarrow> error + AnyParsedResponse" where
  "parseVisualIntelligenceResponse_any processedResults =
    (case logPreviews processedResults of
       Inl e \<Rightarrow> Inl e
     | Inr u \<Rightarrow>
         let parsedResponse =
               \<lparr>any_rawResults = processedResults, any_text = [], any_extractedData = empty_object\<rparr>
         in (case processedResults of
               [] \<Rightarrow> Inr parsedResponse
             | firstResult # others \<Rightarrow>
                 (case firstResult of
                    NullResult \<Rightarrow> Inl TypeError
                  | Result firstText firstClasses \<Rightarrow>
                      (case (case firstClasses of
                               ClassesAbsent \<Rightarrow> Inr (empty_object, [])
                             | ClassesArray items \<Rightarrow>
                                 if length items > 0 then processAnyClasses items (empty_object, [])
                                 else Inr (empty_object, [])) of
                         Inl e \<Rightarrow> Inl e
                       | Inr state \<Rightarrow>
                           let combinedText = snd state;
                               afterClasses = parsedResponse
                                 \<lparr>any_text := (if trim combinedText \<noteq> [] then trim combinedText else []),
                                  any_extractedData := fst state\<rparr>
                           in (case firstText of
                                 TextString t \<Rightarrow>
                                   if props (fst state) = [] \<and> t \<noteq> []
                                   then Inr (afterClasses
                                          \<lparr>any_text := t,
                                           any_extractedData :=
                                             processLines
                                               (filter (\<lambda>line. trim line \<noteq> []) (split_on (\<lambda>c. c = CHR 0x0A) t))
                                               (fst state)\<rparr>)
                                   else Inr afterClasses
                               | TextAbsent \<Rightarrow> Inr afterClasses
                               | TextOther \<Rightarrow> Inr afterClasses)))))"

text \<open>
  A reply made of the records of the sections above, seen as a reply of any shape, and the
  replies on which the operation has no reason to throw: every element is an object
  whose text is missing or a string, and every item of the first element's classes is an
  object.
\<close>

definition raw_of :: "ProcessedResult \<Rightarrow> raw_result" where
  "raw_of r =
     Result (case result_text r of None \<Rightarrow> TextAbsent | Some t \<Rightarrow> TextString t)
            (case classes r of None \<Rightarrow> ClassesAbsent | Some items \<Rightarrow> ClassesArray (map Item items))"

definition loggable :: "raw_result \<Rightarrow> bool" where
  "loggable r = (case r of NullResult \<Rightarrow> False | Result t c \<Rightarrow> t \<noteq> TextOther)"

definition well_formed_reply :: "raw_result list \<Rightarrow> bool" where
  "well_formed_reply processedResults =
    (list_all loggable processedResults
     \<and> (case processedResults of
           Result t (ClassesArray items) # others \<Rightarrow> list_all (\<lambda>i. i \<noteq> NullItem) items
         | _ \<Rightarrow> True))"

subsection \<open>Notions used to state the properties\<close>

text \<open>
  The field key an item resolves to: none for an item the loop skips (its category is
  missing or empty), else \<^verbatim>\<open>createFieldMapping\<close> of its category.
\<close>

definition fieldKeyOf :: "ClassificationItem \<Rightarrow> string option" where
  "fieldKeyOf classItem =
    (case category classItem of
       None \<Rightarrow> None
     | Some categoryNameFromAI \<Rightarrow>
         if categoryNameFromAI = [] then None else Some (createFieldMapping categoryNameFromAI))"

text \<open>
  The condition under which the source logs "No data extracted!": no own property in
  \<^verbatim>\<open>extractedData\<close> and an empty text.
\<close>

definition noDataExtracted :: "ParsedResponse \<Rightarrow> bool" where
  "noDataExtracted parsedResponse =
     (props (extractedData parsedResponse) = [] \<and> response_text parsedResponse = [])"

text \<open>
  The state after the loop over the classes of a result: \<^verbatim>\<open>extractedData\<close> and
  \<^verbatim>\<open>combinedText\<close> as the structured path leaves them, before the fallback path is
  considered. Without classes, or with an empty list, nothing has been stored.
\<close>

definition structured_state :: "ProcessedResult \<Rightarrow> jsobj \<times> string" where
  "structured_state r =
     (case classes r of None \<Rightarrow> (empty_object, []) | Some items \<Rightarrow> processClasses items (empty_object, []))"

section \<open>Properties of the prompt builder\<close>

lemma foldl_push: "foldl (\<lambda>c question. c @ [question]) acc qs = acc @ qs"
  by (induction qs arbitrary: acc) simp_all

lemma push_if: "(if b then c @ [p] else c) = c @ (if b then [p] else [])"
  by simp

lemma enabled_phrases_Cons:
  "map snd (filter (\<lambda>(k, phrase). k \<in> set cbs) ((k, p) # rest)) =
     (if k \<in> set cbs then [p] else []) @ map snd (filter (\<lambda>(k, phrase). k \<in> set cbs) rest)"
  by simp

lemma categories_enabled_phrases:
  "categories qs pt cbs =
     (case pt of None \<Rightarrow> [] | Some p \<Rightarrow> if p = [] then [] else [''product type (this is a '' @ p @ '' product)''])
     @ qs
     @ map snd (filter (\<lambda>(k, phrase). k \<in> set cbs) content_option_phrases)"
proof -
  define c1 where "c1 = (case pt of None \<Rightarrow> [] | Some p \<Rightarrow>
      if p \<noteq> [] then [] @ [''product type (this is a '' @ p @ '' product)''] else [])"
  define c2 where "c2 = (if length qs > 0 then foldl (\<lambda>c question. c @ [question]) c1 qs else c1)"
  define c3 where "c3 = (if ''productTitle'' \<in> set cbs
      then c2 @ [''product title (compelling, SEO-friendly product title)''] else c2)"
  define c4 where "c4 = (if ''productDescription'' \<in> set cbs
      then c3 @ [''product description (detailed description suitable for e-commerce listing)''] else c3)"
  define c5 where "c5 = (if ''colorVariant'' \<in> set cbs
      then c4 @ [''color variants (primary colors and color variants visible)''] else c4)"
  define c6 where "c6 = (if ''seoDescription'' \<in> set cbs
      then c5 @ [''SEO description (SEO-optimized meta description under 160 characters)''] else c5)"
  define c7 where "c7 = (if ''productTags'' \<in> set cbs
      then c6 @ [''product tags (5-10 relevant product tags and keywords, comma-separated)''] else c6)"
  define c8 where "c8 = (if ''altText'' \<in> set cbs
      then c7 @ [''alt text (descriptive alt text for accessibility)''] else c7)"
  have unfolded: "categories qs pt cbs = c8"
    unfolding categories_def Let_def c8_def c7_def c6_def c5_def c4_def c3_def c2_def c1_def ..
  have e1: "c1 = (case pt of None \<Rightarrow> [] | Some p \<Rightarrow>
      if p = [] then [] else [''product type (this is a '' @ p @ '' product)''])"
    unfolding c1_def by (simp split: option.split)
  have e2: "c2 = c1 @ qs"
    unfolding c2_def by (simp add: foldl_push)
  note steps = c3_def [unfolded push_if] c4_def [unfolded push_if] c5_def [unfolded push_if]
    c6_def [unfolded push_if] c7_def [unfolded push_if] c8_def [unfolded push_if]
  have table: "map snd (filter (\<lambda>(k, phrase). k \<in> set cbs) content_option_phrases) =
      (if ''productTitle'' \<in> set cbs
       then [''product title (compelling, SEO-friendly product title)''] else [])
    @ (if ''productDescription'' \<in> set cbs
       then [''product description (detailed description suitable for e-commerce listing)''] else [])
    @ (if ''colorVariant'' \<in> set cbs
       then [''color variants (primary colors and color variants visible)''] else [])
    @ (if ''seoDescription'' \<in> set cbs
       then [''SEO description (SEO-optimized meta description under 160 characters)''] else [])
    @ (if ''productTags'' \<in> set cbs
       then [''product tags (5-10 relevant product tags and keywords, comma-separated)''] else [])
    @ (if ''altText'' \<in> set cbs
       then [''alt text (descriptive alt text for accessibility)''] else [])"
    unfolding content_option_phrases_def
    by (simp only: enabled_phrases_Cons filter.simps(1) list.map(1) append_Nil2)
  show ?thesis
    by (simp only: unfolded steps e2 table append_assoc) (simp only: e1)
qed

lemma scenario_A_categories:
  "categories [''what is the collar style''] (Some ''t-shirt'') [''productTitle'', ''colorVariant''] =
     [''product type (this is a t-shirt product)'',
      ''what is the collar style'',
      ''product title (compelling, SEO-friendly product title)'',
      ''color variants (primary colors and color variants visible)'']"
  by (simp add: categories_def)

text \<open>
  Claim C3. For every input, the category list assembled by the prompt builder is the
  product-type category first when the product type is given and not empty, then the
  questions as they are and in their order, then the fixed phrase of each enabled content
  option in the declaration order ProductTitle, ProductDescription, ColorVariant,
  SeoDescription, ProductTags, AltText. For the question "what is the collar style", the
  product type "t-shirt" and the options ProductTitle and ColorVariant, the list is the
  four categories of Scenario A in that order.
\<close>

theorem categories_order:
  "categories qs pt cbs =
     (case pt of None \<Rightarrow> [] | Some p \<Rightarrow> if p = [] then [] else [''product type (this is a '' @ p @ '' product)''])
     @ qs
     @ map snd (filter (\<lambda>(k, phrase). k \<in> set cbs) content_option_phrases)
   \<and> categories [''what is the collar style''] (Some ''t-shirt'') [''productTitle'', ''colorVariant''] =
     [''product type (this is a t-shirt product)'',
      ''what is the collar style'',
      ''product title (compelling, SEO-friendly product title)'',
      ''color variants (primary colors and color variants visible)'']"
  using categories_enabled_phrases scenario_A_categories by (rule conjI)

lemma char_not_in_join:
  "c \<notin> set sep \<Longrightarrow> c \<notin> set (concat xs) \<Longrightarrow> c \<notin> set (join sep xs)"
  by (induction sep xs rule: join.induct) auto

lemma no_F_in_phrases: "CHR ''F'' \<notin> set (concat (map snd content_option_phrases))"
  by (simp add: content_option_phrases_def)

lemma no_F_in_enabled_phrases:
  "CHR ''F'' \<notin> set (concat (map snd (filter P content_option_phrases)))"
  using no_F_in_phrases by auto

lemma no_F_in_categories:
  assumes "CHR ''F'' \<notin> set (concat qs)"
    and "CHR ''F'' \<notin> set (case pt of None \<Rightarrow> [] | Some p \<Rightarrow> p)"
  shows "CHR ''F'' \<notin> set (concat (categories qs pt cbs))"
proof -
  have "CHR ''F'' \<notin> set (concat (case pt of None \<Rightarrow> [] | Some p \<Rightarrow>
      if p = [] then [] else [''product type (this is a '' @ p @ '' product)'']))"
    using assms(2) by (cases pt) auto
  with assms(1) no_F_in_enabled_phrases [of "\<lambda>(k, phrase). k \<in> set cbs"] show ?thesis
    unfolding categories_enabled_phrases by simp
qed

lemma no_F_in_prompt:
  assumes "CHR ''F'' \<notin> set (concat qs)"
    and "CHR ''F'' \<notin> set (case pt of None \<Rightarrow> [] | Some p \<Rightarrow> p)"
  shows "CHR ''F'' \<notin> set (buildComprehensivePrompt qs pt cbs)"
proof -
  have "CHR ''F'' \<notin> set (join '', '' (categories qs pt cbs))"
    by (rule char_not_in_join) (simp, rule no_F_in_categories [OF assms])
  then show ?thesis
    by (simp add: buildComprehensivePrompt_def line_break_def)
qed

lemma sublist_set: "sublist xs ys \<Longrightarrow> set xs \<subseteq> set ys"
  by (auto simp: sublist_def)

lemma preamble_has_F: "CHR ''F'' \<in> set person_preamble"
  by (simp add: person_preamble_def)

lemma person_options_not_content:
  "map snd (filter (\<lambda>(k, phrase). k \<in> set (filter (\<lambda>q. q \<notin> set person_options) cbs)) content_option_phrases)
   = map snd (filter (\<lambda>(k, phrase). k \<in> set cbs) content_option_phrases)"
proof -
  have "filter (\<lambda>(k, phrase). k \<in> set (filter (\<lambda>q. q \<notin> set person_options) cbs)) content_option_phrases
      = filter (\<lambda>(k, phrase). k \<in> set cbs) content_option_phrases"
    by (rule filter_cong) (auto simp: content_option_phrases_def person_options_def)
  then show ?thesis by simp
qed

lemma sublist_skip_prefix:
  "x \<notin> set a \<Longrightarrow> sublist (x # w) (a @ m) \<Longrightarrow> sublist (x # w) m"
  by (induction a) (auto simp: sublist_Cons_right)

lemma sublist_embedded: "sublist xs ys \<Longrightarrow> sublist xs (ps @ ys @ ss)"
proof -
  assume "sublist xs ys"
  then obtain p s where "ys = p @ xs @ s"
    by (auto simp: sublist_def)
  then have "ps @ ys @ ss = (ps @ p) @ xs @ (s @ ss)"
    by simp
  then show ?thesis
    unfolding sublist_def by blast
qed

lemma preamble_facts:
  "\<exists>w. person_preamble = CHR ''F'' # w"
  "last person_preamble = CHR ''.''"
  "CHR 0x0A \<notin> set person_preamble"
  "person_preamble \<noteq> []"
  by (simp_all add: person_preamble_def)

lemma preamble_prefix_ends_in_categories:
  assumes "prefix person_preamble (m @ ''. '' @ CHR 0x0A # t)"
  shows "prefix person_preamble (m @ ''.'')"
proof -
  from assms consider "prefix person_preamble m"
    | us where "person_preamble = m @ us" "prefix us (''. '' @ CHR 0x0A # t)"
    by (auto simp: prefix_append)
  then show ?thesis
  proof cases
    case 1
    then show ?thesis by (simp add: prefix_prefix)
  next
    case 2
    show ?thesis
    proof (cases us)
      case Nil
      with 2 show ?thesis by simp
    next
      case (Cons u1 us1)
      with 2(2) have u1: "u1 = CHR ''.''" and p1: "prefix us1 ('' '' @ CHR 0x0A # t)"
        by simp_all
      show ?thesis
      proof (cases us1)
        case Nil
        with 2(1) Cons u1 show ?thesis by simp
      next
        case (Cons u2 us2)
        with p1 have u2: "u2 = CHR '' ''" and p2: "prefix us2 (CHR 0x0A # t)"
          by simp_all
        show ?thesis
        proof (cases us2)
          case Nil
          with 2(1) \<open>us = u1 # us1\<close> \<open>us1 = u2 # us2\<close> u1 u2
          have "person_preamble = m @ ''. ''" by simp
          from arg_cong [OF this, of last] have "last person_preamble = CHR '' ''" by simp
          with preamble_facts(2) show ?thesis by simp
        next
          case (Cons u3 us3)
          with p2 have "u3 = CHR 0x0A" by simp
          with 2(1) \<open>us = u1 # us1\<close> \<open>us1 = u2 # us2\<close> Cons
          have "person_preamble = m @ u1 # u2 # CHR 0x0A # us3" by simp
          from arg_cong [OF this, of set] have "CHR 0x0A \<in> set person_preamble" by simp
          with preamble_facts(3) show ?thesis by simp
        qed
      qed
    qed
  qed
qed

lemma preamble_within_categories:
  assumes "sublist person_preamble (cats @ ''. '' @ CHR 0x0A # t)" and "CHR ''F'' \<notin> set t"
  shows "sublist person_preamble (cats @ ''.'')"
  using assms(1)
proof (induction cats)
  case Nil
  then have "set person_preamble \<subseteq> set (''. '' @ CHR 0x0A # t)"
    using sublist_set by fastforce
  with preamble_has_F assms(2) show ?case by auto
next
  case (Cons c cats)
  from preamble_facts(1) obtain w where w: "person_preamble = CHR ''F'' # w" by blast
  from Cons.prems consider "prefix person_preamble ((c # cats) @ ''. '' @ CHR 0x0A # t)"
    | "sublist person_preamble (cats @ ''. '' @ CHR 0x0A # t)"
    unfolding w by (auto simp: sublist_Cons_right)
  then show ?case
  proof cases
    case 1
    then have "prefix person_preamble ((c # cats) @ ''.'')"
      by (rule preamble_prefix_ends_in_categories)
    then show ?thesis
      by (rule prefix_imp_sublist)
  next
    case 2
    then have "sublist person_preamble (cats @ ''.'')"
      by (rule Cons.IH)
    then show ?thesis
      by (simp add: sublist_Cons_right)
  qed
qed

lemma preamble_in_prompt_iff:
  "sublist person_preamble (buildComprehensivePrompt qs pt cbs)
     \<longleftrightarrow> sublist person_preamble (join '', '' (categories qs pt cbs) @ ''.'')"
proof
  let ?cats = "join '', '' (categories qs pt cbs)"
  let ?t = "''         Report the values of the categories as classLabels. Be very careful to place these values correctly. ''
      @ line_break @ ''If you are unable to provide a category with a value then set its classLabel to null.''"
  have shape: "buildComprehensivePrompt qs pt cbs =
      (line_break @ ''Analyze the image provided and determine the categories of: '')
      @ ?cats @ ''. '' @ CHR 0x0A # ?t"
    by (simp add: buildComprehensivePrompt_def line_break_def)
  from preamble_facts(1) obtain w where w: "person_preamble = CHR ''F'' # w" by blast
  {
    assume "sublist person_preamble (buildComprehensivePrompt qs pt cbs)"
    then have "sublist (CHR ''F'' # w)
        ((line_break @ ''Analyze the image provided and determine the categories of: '')
         @ (?cats @ ''. '' @ CHR 0x0A # ?t))"
      unfolding shape w by simp
    moreover have "CHR ''F'' \<notin> set (line_break @ ''Analyze the image provided and determine the categories of: '')"
      by (simp add: line_break_def)
    ultimately have "sublist person_preamble (?cats @ ''. '' @ CHR 0x0A # ?t)"
      unfolding w by (rule sublist_skip_prefix [rotated])
    moreover have "CHR ''F'' \<notin> set ?t"
      by (simp add: line_break_def)
    ultimately show "sublist person_preamble (?cats @ ''.'')"
      by (rule preamble_within_categories)
  }
  {
    assume "sublist person_preamble (?cats @ ''.'')"
    then have "sublist person_preamble
        ((line_break @ ''Analyze the image provided and determine the categories of: '')
         @ (?cats @ ''.'') @ ('' '' @ CHR 0x0A # ?t))"
      by (rule sublist_embedded)
    then show "sublist person_preamble (buildComprehensivePrompt qs pt cbs)"
      unfolding shape by simp
  }
qed

text \<open>
  Claim C1, as amended. The prompt builder has no person-analysis template. The options
  AgeRange, Gender, FashionStyle and OutfitDescription are ignored: the instruction text is
  the one built without them. Whichever options are enabled, the person-mode preamble
  occurs in the output exactly when it occurs in the categories joined by ", " and followed
  by the full stop that the template puts after them, that is only when the text of the
  questions or of the product type brings it in; with neither questions nor a product
  type it never occurs.
\<close>

theorem person_options_ignored:
  "buildComprehensivePrompt qs pt cbs =
     buildComprehensivePrompt qs pt (filter (\<lambda>q. q \<notin> set person_options) cbs)
   \<and> (sublist person_preamble (buildComprehensivePrompt qs pt cbs)
        \<longleftrightarrow> sublist person_preamble (join '', '' (categories qs pt cbs) @ ''.''))
   \<and> \<not> sublist person_preamble (buildComprehensivePrompt [] None cbs)"
proof (intro conjI)
  show "buildComprehensivePrompt qs pt cbs =
     buildComprehensivePrompt qs pt (filter (\<lambda>q. q \<notin> set person_options) cbs)"
    unfolding buildComprehensivePrompt_def categories_enabled_phrases person_options_not_content ..
next
  show "sublist person_preamble (buildComprehensivePrompt qs pt cbs)
        \<longleftrightarrow> sublist person_preamble (join '', '' (categories qs pt cbs) @ ''.'')"
    by (rule preamble_in_prompt_iff)
next
  have "CHR ''F'' \<notin> set (buildComprehensivePrompt [] None cbs)"
    by (rule no_F_in_prompt) simp_all
  then show "\<not> sublist person_preamble (buildComprehensivePrompt [] None cbs)"
    using preamble_has_F sublist_set by blast
qed

text \<open>
  The claim as stated fails for Scenario B: with AgeRange and Gender enabled, and neither
  questions nor a product type, the output does not contain the person-mode preamble.
\<close>

theorem person_mode_counterexample:
  "\<not> sublist person_preamble (buildComprehensivePrompt [] None [''ageRange'', ''gender''])"
  by code_simp

text \<open>
  With none of the four options enabled the preamble still occurs in the output when a
  question is the preamble itself, since questions are categories as they are.
\<close>

lemma preamble_from_question:
  "sublist person_preamble (buildComprehensivePrompt [person_preamble] None [])"
proof -
  have "buildComprehensivePrompt [person_preamble] None [] =
      (line_break @ ''Analyze the image provided and determine the categories of: '')
      @ person_preamble
      @ (''. '' @ line_break
         @ ''Report the values of the categories as classLabels. Be very careful to place these values correctly. ''
         @ line_break
         @ ''If you are unable to provide a category with a value then set its classLabel to null.'')"
    by (simp add: buildComprehensivePrompt_def categories_def)
  then show ?thesis
    by (simp only: sublist_appendI)
qed

text \<open>
  The claim C2 as stated fails for Scenario A: the returned string is not the one-line
  template, and it does not start with "Analyze the image provided" but with a line feed.
\<close>

theorem prompt_template_counterexample:
  "buildComprehensivePrompt [''what is the collar style''] (Some ''t-shirt'') [''productTitle'', ''colorVariant'']
     \<noteq> prompt_template (join '', ''
          (categories [''what is the collar style''] (Some ''t-shirt'') [''productTitle'', ''colorVariant'']))
   \<and> \<not> prefix ''Analyze the image provided''
        (buildComprehensivePrompt [''what is the collar style''] (Some ''t-shirt'') [''productTitle'', ''colorVariant''])"
  by (simp add: buildComprehensivePrompt_def prompt_template_def line_break_def)

text \<open>
  Claim C2, as amended. For every input, the returned string is the fixed template broken
  into three lines: a line feed and nine spaces stand before "Analyze", before "Report" and
  before "If", each after the space that ends the sentence before; without these three
  line breaks the text is the template of the specification around the categories joined
  by ", ". The returned text starts with the line break followed by
  "Analyze the image provided".
\<close>

theorem prompt_is_broken_template:
  "buildComprehensivePrompt qs pt cbs =
     line_break
     @ ''Analyze the image provided and determine the categories of: ''
     @ join '', '' (categories qs pt cbs) @ ''. ''
     @ line_break
     @ ''Report the values of the categories as classLabels. Be very careful to place these values correctly. ''
     @ line_break
     @ ''If you are unable to provide a category with a value then set its classLabel to null.''
   \<and> prompt_template (join '', '' (categories qs pt cbs)) =
     ''Analyze the image provided and determine the categories of: ''
     @ join '', '' (categories qs pt cbs) @ ''. ''
     @ ''Report the values of the categories as classLabels. Be very careful to place these values correctly. ''
     @ ''If you are unable to provide a category with a value then set its classLabel to null.''
   \<and> line_break = CHR 0x0A # replicate 9 (CHR '' '')
   \<and> prefix (line_break @ ''Analyze the image provided'') (buildComprehensivePrompt qs pt cbs)"
  by (simp add: buildComprehensivePrompt_def prompt_template_def line_break_def eval_nat_numeral)

section \<open>Properties of the response extractor\<close>

lemma mappings_values_nonempty: "map_of mappings n = Some m \<Longrightarrow> m \<noteq> []"
proof -
  assume "map_of mappings n = Some m"
  then have "m \<in> snd ` set mappings"
    by (metis map_of_SomeD image_eqI snd_conv)
  moreover have "[] \<notin> snd ` set mappings"
    by (simp add: mappings_def)
  ultimately show ?thesis by force
qed

lemma mappings_lookup_nonempty: "mappings_lookup n = Some m \<Longrightarrow> m \<noteq> []"
  unfolding mappings_lookup_def
  by (cases "map_of mappings n") (auto split: if_splits dest: mappings_values_nonempty)

lemma createFieldMapping_nonempty: "createFieldMapping c \<noteq> []"
proof (cases "trim c = []")
  case True
  then show ?thesis by (simp add: createFieldMapping_def)
next
  case False
  define n where "n = replace_ws_runs (CHR '' '') False (trim (toLowerCase c))"
  show ?thesis
  proof (cases "mappings_lookup n")
    case None
    with False show ?thesis
      by (simp add: createFieldMapping_def n_def Let_def)
  next
    case (Some m)
    with False have "createFieldMapping c = m"
      by (simp add: createFieldMapping_def n_def Let_def)
    with Some show ?thesis
      by (simp add: mappings_lookup_nonempty)
  qed
qed

lemma own_property_empty [simp]: "own_property empty_object k = None"
  by (simp add: own_property_def empty_object_def)

lemma own_property_set_prop [simp]:
  "own_property (set_prop obj k v) k' = (if k' = k then Some v else own_property obj k')"
  by (simp add: own_property_def set_prop_def update_conv')

lemma own_property_proto_null_update [simp]:
  "own_property (obj\<lparr>proto_null := b\<rparr>) k = own_property obj k"
  by (simp add: own_property_def)

lemma own_property_assign_string_other:
  "k' \<noteq> k \<Longrightarrow> own_property (assign_string obj k s) k' = own_property obj k'"
  by (simp add: assign_string_def)

lemma own_property_assign_null_other:
  "k' \<noteq> k \<Longrightarrow> own_property (assign_null obj k) k' = own_property obj k'"
  by (simp add: assign_null_def)

lemma own_property_assign_null:
  "k \<noteq> ''__proto__'' \<Longrightarrow> own_property (assign_null obj k) k = Some JNull"
  by (simp add: assign_null_def setter_applies_def)

lemma own_property_assign_string:
  "k \<noteq> ''__proto__'' \<Longrightarrow> own_property (assign_string obj k s) k = Some (JStr s)"
  by (simp add: assign_string_def setter_applies_def)

lemma own_property_Some_props: "own_property obj k = Some v \<Longrightarrow> props obj \<noteq> []"
  by (auto simp: own_property_def)

lemma processClassItem_skip: "fieldKeyOf classItem = None \<Longrightarrow> processClassItem classItem state = state"
  by (simp add: fieldKeyOf_def processClassItem_def split: option.splits if_splits)

lemma processClassItem_null:
  assumes "category classItem = Some c" "c \<noteq> []" "classLabel classItem = Some ''null''"
  shows "processClassItem classItem state =
    (assign_null (fst state) (createFieldMapping c), snd state @ c @ '': null'' @ [CHR 0x0A])"
  using assms by (simp add: processClassItem_def createFieldMapping_nonempty Let_def)

lemma processClassItem_tags:
  assumes "category classItem = Some c" "c \<noteq> []" "createFieldMapping c = ''product_tags''"
    "classLabel classItem = Some v" "v \<noteq> ''null''"
  shows "fst (processClassItem classItem state) = set_prop (fst state) ''product_tags'' (JArr (split_tags v))"
  using assms by (simp add: processClassItem_def Let_def)

lemma processClassItem_price:
  assumes "category classItem = Some c" "c \<noteq> []" "createFieldMapping c = ''price''"
    "classLabel classItem = Some v" "v \<noteq> ''null''"
  shows "fst (processClassItem classItem state) =
    (case parseFloat (filter is_price_char v) of
       Some priceValue \<Rightarrow> set_prop (fst state) ''price'' (JNum priceValue)
     | None \<Rightarrow> set_prop (fst state) ''price_text'' (JStr v))"
  using assms by (simp add: processClassItem_def Let_def)

lemma processClassItem_frame:
  assumes "fieldKeyOf classItem \<noteq> Some k"
    and "k = ''price_text'' \<longrightarrow> fieldKeyOf classItem \<noteq> Some ''price''"
  shows "own_property (fst (processClassItem classItem state)) k = own_property (fst state) k"
  using assms
  by (auto simp: processClassItem_def fieldKeyOf_def Let_def own_property_assign_string_other
      own_property_assign_null_other split: option.splits if_splits)

lemma processClasses_append:
  "processClasses (xs @ ys) state = processClasses ys (processClasses xs state)"
  by (induction xs arbitrary: state) simp_all

lemma processClasses_frame:
  assumes "\<forall>j \<in> set items. fieldKeyOf j \<noteq> Some k \<and> (k = ''price_text'' \<longrightarrow> fieldKeyOf j \<noteq> Some ''price'')"
  shows "own_property (fst (processClasses items state)) k = own_property (fst state) k"
  using assms by (induction items arbitrary: state) (simp_all add: processClassItem_frame)

lemma structured_result:
  assumes "classes r = Some items"
    and "own_property (fst (processClasses items (empty_object, []))) k = Some v"
  shows "extractedData (parseVisualIntelligenceResponse (r # rs)) = fst (processClasses items (empty_object, []))"
proof -
  from assms(2) have "items \<noteq> []"
    by (cases items) simp_all
  moreover from assms(2) have "props (fst (processClasses items (empty_object, []))) \<noteq> []"
    by (rule own_property_Some_props)
  ultimately show ?thesis
    using assms(1)
    by (simp add: parseVisualIntelligenceResponse_def structuredPath_def Let_def split: option.splits)
qed


lemma structuredPath_fields:
  "extractedData (structuredPath items p) = fst (processClasses items (extractedData p, []))"
  "response_text (structuredPath items p) =
     (if trim (snd (processClasses items (extractedData p, []))) \<noteq> []
      then trim (snd (processClasses items (extractedData p, []))) else response_text p)"
  by (simp_all add: structuredPath_def Let_def)

lemma fallbackPath_fields:
  "extractedData (fallbackPath t p) =
     processLines (filter (\<lambda>line. trim line \<noteq> []) (split_on (\<lambda>c. c = CHR 0x0A) t)) (extractedData p)"
  "response_text (fallbackPath t p) = t"
  by (simp_all add: fallbackPath_def Let_def)

lemma trim_Nil [simp]: "trim [] = []"
  by (simp add: trim_def)

lemma parse_Cons_extractedData:
  "extractedData (parseVisualIntelligenceResponse (r # rs)) =
     (case result_text r of
        None \<Rightarrow> fst (structured_state r)
      | Some t \<Rightarrow>
          if props (fst (structured_state r)) = [] \<and> t \<noteq> []
          then processLines (filter (\<lambda>line. trim line \<noteq> []) (split_on (\<lambda>c. c = CHR 0x0A) t))
                 (fst (structured_state r))
          else fst (structured_state r))"
  by (cases "classes r"; cases "result_text r")
     (simp_all add: parseVisualIntelligenceResponse_def structured_state_def structuredPath_fields
       fallbackPath_fields Let_def)

lemma parse_Cons_response_text:
  "response_text (parseVisualIntelligenceResponse (r # rs)) =
     (case result_text r of
        None \<Rightarrow> trim (snd (structured_state r))
      | Some t \<Rightarrow>
          if props (fst (structured_state r)) = [] \<and> t \<noteq> [] then t
          else trim (snd (structured_state r)))"
  by (cases "classes r"; cases "result_text r")
     (simp_all add: parseVisualIntelligenceResponse_def structured_state_def structuredPath_fields
       fallbackPath_fields Let_def)

text \<open>
  Claim C10. For every list of processed results that is not empty, the extracted fields
  and the text depend on the first element only: the full list gives the same
  \<^verbatim>\<open>extractedData\<close> and the same text as the list of the first element alone, whatever the
  later elements carry.
\<close>

theorem first_result_only:
  "response_text (parseVisualIntelligenceResponse (r # rs)) = response_text (parseVisualIntelligenceResponse [r])
   \<and> extractedData (parseVisualIntelligenceResponse (r # rs)) = extractedData (parseVisualIntelligenceResponse [r])"
  by (simp only: parse_Cons_extractedData parse_Cons_response_text)

lemma structured_state_classes:
  "classes r = Some items \<Longrightarrow> structured_state r = processClasses items (empty_object, [])"
  by (simp add: structured_state_def)

lemma structured_state_skip:
  assumes "fieldKeyOf classItem = None" and "classes r = Some (before @ classItem # after)"
  shows "structured_state r = structured_state (r\<lparr>classes := Some (before @ after)\<rparr>)"
  using assms by (simp add: structured_state_def processClasses_append processClassItem_skip)

lemma fieldKeyOf_None: "fieldKeyOf classItem = None \<longleftrightarrow> category classItem = None \<or> category classItem = Some []"
  by (auto simp: fieldKeyOf_def split: option.splits)

text \<open>
  Claim C9. A classification item whose category is missing or empty is skipped: the loop
  body leaves \<^verbatim>\<open>extractedData\<close> and the combined text as they are, so the item adds no
  entry and no line, and the reply gives the same extracted fields and the same text as
  the reply without that item: the items before and after it are processed as if it were
  not there.
\<close>

theorem skipped_item:
  assumes "category classItem = None \<or> category classItem = Some []"
    and "classes r = Some (before @ classItem # after)"
  shows "processClassItem classItem state = state
    \<and> extractedData (parseVisualIntelligenceResponse (r # rs))
        = extractedData (parseVisualIntelligenceResponse (r\<lparr>classes := Some (before @ after)\<rparr> # rs))
    \<and> response_text (parseVisualIntelligenceResponse (r # rs))
        = response_text (parseVisualIntelligenceResponse (r\<lparr>classes := Some (before @ after)\<rparr> # rs))"
proof -
  from assms(1) have skipped: "fieldKeyOf classItem = None"
    by (simp add: fieldKeyOf_None)
  have same: "structured_state r = structured_state (r\<lparr>classes := Some (before @ after)\<rparr>)"
    using skipped assms(2) by (rule structured_state_skip)
  have text_kept: "result_text (r\<lparr>classes := Some (before @ after)\<rparr>) = result_text r"
    by simp
  show ?thesis
    unfolding parse_Cons_extractedData parse_Cons_response_text text_kept same [symmetric]
    using processClassItem_skip [OF skipped] by simp
qed

lemma stored_by_item:
  assumes cls: "classes r = Some (before @ classItem # after)"
    and later: "\<forall>j \<in> set after. fieldKeyOf j \<noteq> Some k \<and> (k = ''price_text'' \<longrightarrow> fieldKeyOf j \<noteq> Some ''price'')"
    and step: "\<And>state. own_property (fst (processClassItem classItem state)) k = Some v"
  shows "own_property (extractedData (parseVisualIntelligenceResponse (r # rs))) k = Some v"
proof -
  let ?items = "before @ classItem # after"
  have "processClasses ?items (empty_object, [])
      = processClasses after (processClassItem classItem (processClasses before (empty_object, [])))"
    by (simp add: processClasses_append)
  then have final: "own_property (fst (processClasses ?items (empty_object, []))) k = Some v"
    using processClasses_frame [OF later] step by simp
  from structured_result [OF cls final] final show ?thesis
    by simp
qed


lemma fieldKeyOf_Some:
  "fieldKeyOf classItem = Some k \<Longrightarrow> \<exists>c. category classItem = Some c \<and> c \<noteq> [] \<and> createFieldMapping c = k"
  by (auto simp: fieldKeyOf_def split: option.splits if_splits)

lemma is_price_char_eq: "is_price_char = (\<lambda>c. c \<in> set ''0123456789.-'')"
  by (auto simp: is_price_char_def is_digit_def fun_eq_iff)

lemma literal_19_99: "to_double False (1999 / 100) = Double False (5626684784446013 / 281474976710656)"
  by code_simp

lemma parseFloat_ties_to_even: "parseFloat ''9007199254740993'' = Some (Double False 9007199254740992)"
  by code_simp

lemma to_double_overflow: "to_double False (10 ^ 309) = Infinity False"
  by code_simp

lemma parseFloat_negative_zero: "parseFloat ''-0.0'' = Some (Double True 0)"
  by code_simp

lemma parseFloat_NaN: "parseFloat ''-'' = None" "parseFloat ''.'' = None" "parseFloat [] = None"
  by code_simp+

lemma scenario_C:
  "own_property (extractedData (parseVisualIntelligenceResponse
      [\<lparr>result_text = None,
        classes = Some [\<lparr>category = Some ''Product Tags'', classLabel = Some ''red, blue, green''\<rparr>]\<rparr>]))
     ''product_tags'' = Some (JArr [''red'', ''blue'', ''green''])"
  by code_simp

lemma scenario_D:
  "own_property (extractedData (parseVisualIntelligenceResponse
      [\<lparr>result_text = None,
        classes = Some [\<lparr>category = Some ''Price'', classLabel = Some ''$19.99''\<rparr>]\<rparr>]))
     ''price'' = Some (JNum (to_double False (1999 / 100)))"
  by code_simp

text \<open>
  Claim C6. For every item of the structured path that resolves to the field key
  \<^verbatim>\<open>product_tags\<close> and carries a string other than "null", the value is split at commas and
  semicolons, each part is trimmed, empty parts are dropped, and the loop body stores the
  list under \<^verbatim>\<open>product_tags\<close>, whatever the state before; it is the value in the result
  when no later item resolves to that key again. Scenario C: the class label "red, blue, green" under the category
  "Product Tags" gives the tags red, blue, green.
\<close>

theorem tags_split:
  "(fieldKeyOf classItem = Some ''product_tags'' \<and> classLabel classItem = Some v \<and> v \<noteq> ''null''
    \<longrightarrow> own_property (fst (processClassItem classItem state)) ''product_tags''
          = Some (JArr (filter (\<lambda>tag. tag \<noteq> [])
                          (map trim (split_on (\<lambda>c. c = CHR '','' \<or> c = CHR '';'') v))))
        \<and> (classes r = Some (before @ classItem # after)
              \<and> (\<forall>j \<in> set after. fieldKeyOf j \<noteq> Some ''product_tags'')
            \<longrightarrow> own_property (extractedData (parseVisualIntelligenceResponse (r # rs))) ''product_tags''
                = Some (JArr (filter (\<lambda>tag. tag \<noteq> [])
                                (map trim (split_on (\<lambda>c. c = CHR '','' \<or> c = CHR '';'') v))))))
   \<and> own_property (extractedData (parseVisualIntelligenceResponse
        [\<lparr>result_text = None,
          classes = Some [\<lparr>category = Some ''Product Tags'', classLabel = Some ''red, blue, green''\<rparr>]\<rparr>]))
       ''product_tags'' = Some (JArr [''red'', ''blue'', ''green''])"
proof (intro conjI impI)
  assume item: "fieldKeyOf classItem = Some ''product_tags'' \<and> classLabel classItem = Some v \<and> v \<noteq> ''null''"
  then obtain c where c: "category classItem = Some c" "c \<noteq> []" "createFieldMapping c = ''product_tags''"
    using fieldKeyOf_Some by blast
  have step: "own_property (fst (processClassItem classItem state')) ''product_tags''
      = Some (JArr (split_tags v))" for state'
    using processClassItem_tags [OF c, of v state'] item by simp
  from step show "own_property (fst (processClassItem classItem state)) ''product_tags''
          = Some (JArr (filter (\<lambda>tag. tag \<noteq> [])
                          (map trim (split_on (\<lambda>c. c = CHR '','' \<or> c = CHR '';'') v))))"
    by (simp add: split_tags_def)
  assume reply: "classes r = Some (before @ classItem # after)
      \<and> (\<forall>j \<in> set after. fieldKeyOf j \<noteq> Some ''product_tags'')"
  have "own_property (extractedData (parseVisualIntelligenceResponse (r # rs))) ''product_tags''
      = Some (JArr (split_tags v))"
    by (rule stored_by_item [where before = before and classItem = classItem and after = after])
       (use reply step in simp_all)
  then show "own_property (extractedData (parseVisualIntelligenceResponse (r # rs))) ''product_tags''
        = Some (JArr (filter (\<lambda>tag. tag \<noteq> [])
                        (map trim (split_on (\<lambda>c. c = CHR '','' \<or> c = CHR '';'') v))))"
    by (simp add: split_tags_def)
qed (rule scenario_C)

text \<open>
  Claim C7. For every item of the structured path that resolves to the field key
  \<^verbatim>\<open>price\<close> and carries a string other than "null", every character but digits, the full
  stop and the minus sign is removed and the rest is parsed as a floating-point number, the
  double nearest to the decimal read: when that succeeds the loop body stores the number
  under \<^verbatim>\<open>price\<close>, and when it fails (\<^verbatim>\<open>NaN\<close>) it stores the original value under
  \<^verbatim>\<open>price_text\<close>, whatever the state before; it is the value in the result when no later
  item resolves to \<^verbatim>\<open>price\<close> or \<^verbatim>\<open>price_text\<close>. Scenario D: the class label "$19.99"
  under the category "Price" gives the number that the literal 19.99 denotes, the double
  nearest to 1999/100.
\<close>

theorem price_parsed:
  "(fieldKeyOf classItem = Some ''price'' \<and> classLabel classItem = Some v \<and> v \<noteq> ''null''
    \<longrightarrow> (case parseFloat (filter (\<lambda>c. c \<in> set ''0123456789.-'') v) of
           Some priceValue \<Rightarrow>
             own_property (fst (processClassItem classItem state)) ''price'' = Some (JNum priceValue)
         | None \<Rightarrow>
             own_property (fst (processClassItem classItem state)) ''price_text'' = Some (JStr v))
        \<and> (classes r = Some (before @ classItem # after)
              \<and> (\<forall>j \<in> set after. fieldKeyOf j \<noteq> Some ''price'' \<and> fieldKeyOf j \<noteq> Some ''price_text'')
            \<longrightarrow> (case parseFloat (filter (\<lambda>c. c \<in> set ''0123456789.-'') v) of
                   Some priceValue \<Rightarrow>
                     own_property (extractedData (parseVisualIntelligenceResponse (r # rs))) ''price''
                       = Some (JNum priceValue)
                 | None \<Rightarrow>
                     own_property (extractedData (parseVisualIntelligenceResponse (r # rs))) ''price_text''
                       = Some (JStr v))))
   \<and> own_property (extractedData (parseVisualIntelligenceResponse
        [\<lparr>result_text = None,
          classes = Some [\<lparr>category = Some ''Price'', classLabel = Some ''$19.99''\<rparr>]\<rparr>]))
       ''price'' = Some (JNum (to_double False (1999 / 100)))"
proof (intro conjI impI)
  assume item: "fieldKeyOf classItem = Some ''price'' \<and> classLabel classItem = Some v \<and> v \<noteq> ''null''"
  then obtain c where c: "category classItem = Some c" "c \<noteq> []" "createFieldMapping c = ''price''"
    using fieldKeyOf_Some by blast
  have step: "fst (processClassItem classItem state') =
    (case parseFloat (filter is_price_char v) of
       Some priceValue \<Rightarrow> set_prop (fst state') ''price'' (JNum priceValue)
     | None \<Rightarrow> set_prop (fst state') ''price_text'' (JStr v))" for state'
    using processClassItem_price [OF c, of v state'] item by simp
  show "case parseFloat (filter (\<lambda>c. c \<in> set ''0123456789.-'') v) of
           Some priceValue \<Rightarrow>
             own_property (fst (processClassItem classItem state)) ''price'' = Some (JNum priceValue)
         | None \<Rightarrow>
             own_property (fst (processClassItem classItem state)) ''price_text'' = Some (JStr v)"
    by (cases "parseFloat (filter is_price_char v)") (simp_all add: step is_price_char_eq)
  assume reply: "classes r = Some (before @ classItem # after)
      \<and> (\<forall>j \<in> set after. fieldKeyOf j \<noteq> Some ''price'' \<and> fieldKeyOf j \<noteq> Some ''price_text'')"
  let ?final = "extractedData (parseVisualIntelligenceResponse (r # rs))"
  show "case parseFloat (filter (\<lambda>c. c \<in> set ''0123456789.-'') v) of
           Some priceValue \<Rightarrow> own_property ?final ''price'' = Some (JNum priceValue)
         | None \<Rightarrow> own_property ?final ''price_text'' = Some (JStr v)"
  proof (cases "parseFloat (filter is_price_char v)")
    case None
    have "own_property ?final ''price_text'' = Some (JStr v)"
      by (rule stored_by_item [where before = before and classItem = classItem and after = after])
         (use reply step None in simp_all)
    with None show ?thesis
      by (simp add: is_price_char_eq)
  next
    case (Some priceValue)
    have "own_property ?final ''price'' = Some (JNum priceValue)"
      by (rule stored_by_item [where before = before and classItem = classItem and after = after])
         (use reply step Some in simp_all)
    with Some show ?thesis
      by (simp add: is_price_char_eq)
  qed
qed (rule scenario_D)

theorem tags_split_witness:
  "(fieldKeyOf \<lparr>category = Some ''Keywords'', classLabel = Some ''red; blue,, green ''\<rparr> = Some ''product_tags''
    \<and> classLabel \<lparr>category = Some ''Keywords'', classLabel = Some ''red; blue,, green ''\<rparr> = Some ''red; blue,, green ''
    \<and> ''red; blue,, green '' \<noteq> ''null'')
   \<and> (classes \<lparr>result_text = None,
       classes = Some [\<lparr>category = Some ''Keywords'', classLabel = Some ''red; blue,, green ''\<rparr>,
                       \<lparr>category = Some ''Title'', classLabel = Some ''Shirt''\<rparr>]\<rparr>
      = Some ([] @ \<lparr>category = Some ''Keywords'', classLabel = Some ''red; blue,, green ''\<rparr>
                # [\<lparr>category = Some ''Title'', classLabel = Some ''Shirt''\<rparr>])
    \<and> fieldKeyOf \<lparr>category = Some ''Title'', classLabel = Some ''Shirt''\<rparr> \<noteq> Some ''product_tags'')
   \<and> own_property (fst (processClassItem \<lparr>category = Some ''Keywords'', classLabel = Some ''red; blue,, green ''\<rparr>
        (empty_object, []))) ''product_tags'' = Some (JArr [''red'', ''blue'', ''green''])
   \<and> own_property (extractedData (parseVisualIntelligenceResponse
        [\<lparr>result_text = None,
          classes = Some [\<lparr>category = Some ''Keywords'', classLabel = Some ''red; blue,, green ''\<rparr>,
                          \<lparr>category = Some ''Title'', classLabel = Some ''Shirt''\<rparr>]\<rparr>]))
       ''product_tags'' = Some (JArr [''red'', ''blue'', ''green''])"
proof -
  let ?item = "\<lparr>category = Some ''Keywords'', classLabel = Some ''red; blue,, green ''\<rparr>"
  let ?other = "\<lparr>category = Some ''Title'', classLabel = Some ''Shirt''\<rparr>"
  let ?r = "\<lparr>result_text = None, classes = Some [?item, ?other]\<rparr>"
  have item: "fieldKeyOf ?item = Some ''product_tags''
      \<and> classLabel ?item = Some ''red; blue,, green '' \<and> ''red; blue,, green '' \<noteq> ''null''"
    by code_simp
  have other: "fieldKeyOf ?other \<noteq> Some ''product_tags''"
    by code_simp
  have reply: "classes ?r = Some ([] @ ?item # [?other])
      \<and> (\<forall>j \<in> set [?other]. fieldKeyOf j \<noteq> Some ''product_tags'')"
    using other by simp
  have parts: "filter (\<lambda>tag. tag \<noteq> [])
      (map trim (split_on (\<lambda>c. c = CHR '','' \<or> c = CHR '';'') ''red; blue,, green ''))
      = [''red'', ''blue'', ''green'']"
    by code_simp
  note split = tags_split [where classItem = ?item and v = "''red; blue,, green ''"
      and state = "(empty_object, [])" and r = ?r and before = "[]" and after = "[?other]" and rs = "[]",
      THEN conjunct1, rule_format, OF item]
  from split [THEN conjunct1] split [THEN conjunct2, rule_format, OF reply] parts item other show ?thesis
    by simp
qed

theorem price_parsed_witness:
  "(fieldKeyOf \<lparr>category = Some ''Product  price'', classLabel = Some ''USD 1,299.50 (approx.)''\<rparr> = Some ''price''
    \<and> classLabel \<lparr>category = Some ''Product  price'', classLabel = Some ''USD 1,299.50 (approx.)''\<rparr>
        = Some ''USD 1,299.50 (approx.)''
    \<and> ''USD 1,299.50 (approx.)'' \<noteq> ''null'')
   \<and> (classes \<lparr>result_text = None,
       classes = Some [\<lparr>category = Some ''Product  price'', classLabel = Some ''USD 1,299.50 (approx.)''\<rparr>,
                       \<lparr>category = Some ''Title'', classLabel = Some ''Shirt''\<rparr>]\<rparr>
      = Some ([] @ \<lparr>category = Some ''Product  price'', classLabel = Some ''USD 1,299.50 (approx.)''\<rparr>
                # [\<lparr>category = Some ''Title'', classLabel = Some ''Shirt''\<rparr>])
    \<and> fieldKeyOf \<lparr>category = Some ''Title'', classLabel = Some ''Shirt''\<rparr> \<noteq> Some ''price''
    \<and> fieldKeyOf \<lparr>category = Some ''Title'', classLabel = Some ''Shirt''\<rparr> \<noteq> Some ''price_text'')
   \<and> own_property (fst (processClassItem
        \<lparr>category = Some ''Product  price'', classLabel = Some ''USD 1,299.50 (approx.)''\<rparr> (empty_object, [])))
       ''price'' = Some (JNum (Double False (2599 / 2)))
   \<and> own_property (extractedData (parseVisualIntelligenceResponse
        [\<lparr>result_text = None,
          classes = Some [\<lparr>category = Some ''Product  price'', classLabel = Some ''USD 1,299.50 (approx.)''\<rparr>,
                          \<lparr>category = Some ''Title'', classLabel = Some ''Shirt''\<rparr>]\<rparr>]))
       ''price'' = Some (JNum (Double False (2599 / 2)))"
proof -
  let ?item = "\<lparr>category = Some ''Product  price'', classLabel = Some ''USD 1,299.50 (approx.)''\<rparr>"
  let ?other = "\<lparr>category = Some ''Title'', classLabel = Some ''Shirt''\<rparr>"
  let ?r = "\<lparr>result_text = None, classes = Some [?item, ?other]\<rparr>"
  have item: "fieldKeyOf ?item = Some ''price''
      \<and> classLabel ?item = Some ''USD 1,299.50 (approx.)'' \<and> ''USD 1,299.50 (approx.)'' \<noteq> ''null''"
    by code_simp
  have other: "fieldKeyOf ?other \<noteq> Some ''price'' \<and> fieldKeyOf ?other \<noteq> Some ''price_text''"
    by code_simp
  have reply: "classes ?r = Some ([] @ ?item # [?other])
      \<and> (\<forall>j \<in> set [?other]. fieldKeyOf j \<noteq> Some ''price'' \<and> fieldKeyOf j \<noteq> Some ''price_text'')"
    using other by simp
  have parsed: "parseFloat (filter (\<lambda>c. c \<in> set ''0123456789.-'') ''USD 1,299.50 (approx.)'') = Some (Double False (2599 / 2))"
    by code_simp
  note price = price_parsed [where classItem = ?item and v = "''USD 1,299.50 (approx.)''"
      and state = "(empty_object, [])" and r = ?r and before = "[]" and after = "[?other]" and rs = "[]",
      THEN conjunct1, rule_format, OF item]
  from price [THEN conjunct1] price [THEN conjunct2, rule_format, OF reply] parsed item other show ?thesis
    by simp
qed

theorem skipped_item_witness:
  "(category \<lparr>category = Some [], classLabel = Some ''Blue''\<rparr> = None
      \<or> category \<lparr>category = Some [], classLabel = Some ''Blue''\<rparr> = Some [])
   \<and> classes \<lparr>result_text = Some ''Size: M'',
        classes = Some [\<lparr>category = Some ''Title'', classLabel = Some ''Shirt''\<rparr>,
                        \<lparr>category = Some [], classLabel = Some ''Blue''\<rparr>,
                        \<lparr>category = Some ''Cost'', classLabel = Some ''n/a''\<rparr>]\<rparr>
       = Some ([\<lparr>category = Some ''Title'', classLabel = Some ''Shirt''\<rparr>]
               @ \<lparr>category = Some [], classLabel = Some ''Blue''\<rparr>
               # [\<lparr>category = Some ''Cost'', classLabel = Some ''n/a''\<rparr>])
   \<and> processClassItem \<lparr>category = Some [], classLabel = Some ''Blue''\<rparr> (empty_object, ''x'') = (empty_object, ''x'')
   \<and> props (extractedData (parseVisualIntelligenceResponse
        [\<lparr>result_text = Some ''Size: M'',
          classes = Some [\<lparr>category = Some ''Title'', classLabel = Some ''Shirt''\<rparr>,
                          \<lparr>category = Some [], classLabel = Some ''Blue''\<rparr>,
                          \<lparr>category = Some ''Cost'', classLabel = Some ''n/a''\<rparr>]\<rparr>]))
       = [(''product_title'', JStr ''Shirt''), (''price_text'', JStr ''n/a'')]
   \<and> response_text (parseVisualIntelligenceResponse
        [\<lparr>result_text = Some ''Size: M'',
          classes = Some [\<lparr>category = Some ''Title'', classLabel = Some ''Shirt''\<rparr>,
                          \<lparr>category = Some [], classLabel = Some ''Blue''\<rparr>,
                          \<lparr>category = Some ''Cost'', classLabel = Some ''n/a''\<rparr>]\<rparr>])
       = ''Title: Shirt'' @ [CHR 0x0A] @ ''Cost: n/a''"
proof -
  let ?skipped = "\<lparr>category = Some [], classLabel = Some ''Blue''\<rparr>"
  let ?r = "\<lparr>result_text = Some ''Size: M'',
        classes = Some [\<lparr>category = Some ''Title'', classLabel = Some ''Shirt''\<rparr>,
                        \<lparr>category = Some [], classLabel = Some ''Blue''\<rparr>,
                        \<lparr>category = Some ''Cost'', classLabel = Some ''n/a''\<rparr>]\<rparr>"
  have h1: "category ?skipped = None \<or> category ?skipped = Some []"
    by simp
  have h2: "classes ?r = Some ([\<lparr>category = Some ''Title'', classLabel = Some ''Shirt''\<rparr>]
               @ ?skipped # [\<lparr>category = Some ''Cost'', classLabel = Some ''n/a''\<rparr>])"
    by simp
  have without: "props (extractedData (parseVisualIntelligenceResponse
        [?r\<lparr>classes := Some ([\<lparr>category = Some ''Title'', classLabel = Some ''Shirt''\<rparr>]
               @ [\<lparr>category = Some ''Cost'', classLabel = Some ''n/a''\<rparr>])\<rparr>]))
       = [(''product_title'', JStr ''Shirt''), (''price_text'', JStr ''n/a'')]
     \<and> response_text (parseVisualIntelligenceResponse
        [?r\<lparr>classes := Some ([\<lparr>category = Some ''Title'', classLabel = Some ''Shirt''\<rparr>]
               @ [\<lparr>category = Some ''Cost'', classLabel = Some ''n/a''\<rparr>])\<rparr>])
       = ''Title: Shirt'' @ [CHR 0x0A] @ ''Cost: n/a''"
    by code_simp
  from skipped_item [OF h1 h2, of "(empty_object, ''x'')" "[]"] without h1 h2 show ?thesis
    by simp
qed

text \<open>
  An item with a category that is not empty and the class label "null" stores
  \<^verbatim>\<open>null\<close> under its field key, for every field key but \<^verbatim>\<open>__proto__\<close>; the value is
  there in the result when no later item writes that key.
\<close>

lemma null_stored:
  assumes "classes r = Some (before @ classItem # after)"
    and "fieldKeyOf classItem = Some k" and "k \<noteq> ''__proto__''"
    and "classLabel classItem = Some ''null''"
    and "\<forall>j \<in> set after. fieldKeyOf j \<noteq> Some k \<and> (k = ''price_text'' \<longrightarrow> fieldKeyOf j \<noteq> Some ''price'')"
  shows "own_property (extractedData (parseVisualIntelligenceResponse (r # rs))) k = Some JNull"
proof -
  from assms(2) obtain c where c: "category classItem = Some c" "c \<noteq> []" "createFieldMapping c = k"
    using fieldKeyOf_Some by blast
  have step: "own_property (fst (processClassItem classItem state)) k = Some JNull" for state
    using processClassItem_null [OF c(1,2) assms(4), of state] c(3) assms(3)
    by (simp add: own_property_assign_null)
  show ?thesis
    by (rule stored_by_item [OF assms(1) assms(5) step])
qed

text \<open>The loop body never stores the string "null" for such an item.\<close>

lemma null_never_a_string:
  assumes "classLabel classItem = Some ''null''"
  shows "own_property (fst (processClassItem classItem state)) k = Some (JStr ''null'')
     \<longrightarrow> own_property (fst state) k = Some (JStr ''null'')"
proof (cases "fieldKeyOf classItem")
  case None
  then show ?thesis by (simp add: processClassItem_skip)
next
  case (Some k')
  then obtain c where c: "category classItem = Some c" "c \<noteq> []" "createFieldMapping c = k'"
    using fieldKeyOf_Some by blast
  show ?thesis
    unfolding processClassItem_null [OF c(1,2) assms]
    by (auto simp: assign_null_def split: if_splits)
qed

text \<open>
  Claim C4 at the item with category "__proto__!" and class label "null". The category is
  not in the table and is sanitized to the field key \<^verbatim>\<open>__proto__\<close>; the assignment
  \<^verbatim>\<open>extractedData[fieldKey] = null\<close> runs the setter inherited from \<^verbatim>\<open>Object.prototype\<close>
  and creates no property: the result has no entry under the item's field key, and no
  entry at all, while the combined text reports the item.
\<close>

theorem null_lost_under_proto_key:
  "fieldKeyOf \<lparr>category = Some ''__proto__!'', classLabel = Some ''null''\<rparr> = Some ''__proto__''
   \<and> own_property (extractedData (parseVisualIntelligenceResponse
        [\<lparr>result_text = None,
          classes = Some [\<lparr>category = Some ''__proto__!'', classLabel = Some ''null''\<rparr>]\<rparr>]))
       ''__proto__'' = None
   \<and> props (extractedData (parseVisualIntelligenceResponse
        [\<lparr>result_text = None,
          classes = Some [\<lparr>category = Some ''__proto__!'', classLabel = Some ''null''\<rparr>]\<rparr>])) = []
   \<and> response_text (parseVisualIntelligenceResponse
        [\<lparr>result_text = None,
          classes = Some [\<lparr>category = Some ''__proto__!'', classLabel = Some ''null''\<rparr>]\<rparr>])
       = ''__proto__!: null''"
  by code_simp

lemma processLine_keeps_truthy:
  assumes "own_property data k = Some v" and "truthy v"
  shows "own_property (processLine line data) k = Some v"
proof -
  have populated: "read_truthy data k"
    using assms by (simp add: read_truthy_def)
  have other: "own_property (assign_string data k' s) k = Some v" if "\<not> read_truthy data k'" for k' s
  proof -
    from that populated have "k \<noteq> k'" by auto
    then show ?thesis
      using assms(1) by (simp add: own_property_assign_string_other)
  qed
  show ?thesis
    using assms(1) other
    by (auto simp: processLine_def Let_def split: option.splits)
qed

lemma processLines_keeps_truthy:
  assumes "own_property data k = Some v" and "truthy v"
  shows "own_property (processLines lines data) k = Some v"
  using assms by (induction lines arbitrary: data) (simp_all add: processLine_keeps_truthy)

lemma processLines_append:
  "processLines (xs @ ys) data = processLines ys (processLines xs data)"
  by (induction xs arbitrary: data) simp_all

text \<open>
  Claim C5. The fallback path is entered only when the structured path left
  \<^verbatim>\<open>extractedData\<close> without fields and the first result carries a text that is not empty:
  otherwise the result is what the structured path produced. In particular a
  \<^verbatim>\<open>product_title\<close> set by the structured path is the \<^verbatim>\<open>product_title\<close> of the result.
  Within the fallback path a field key that is populated is never overwritten: populated
  is what the source tests with \<^verbatim>\<open>!extractedData[fieldKey]\<close>, the key holds a truthy value,
  and such a key keeps its value whatever lines follow.
\<close>

theorem fallback_guard:
  "(props (fst (structured_state r)) \<noteq> [] \<or> result_text r = None \<or> result_text r = Some []
      \<longrightarrow> extractedData (parseVisualIntelligenceResponse (r # rs)) = fst (structured_state r)
        \<and> response_text (parseVisualIntelligenceResponse (r # rs)) = trim (snd (structured_state r)))
   \<and> (own_property (fst (structured_state r)) ''product_title'' = Some v
      \<longrightarrow> own_property (extractedData (parseVisualIntelligenceResponse (r # rs))) ''product_title'' = Some v)
   \<and> (own_property (processLines earlier data) k = Some w \<and> truthy w
      \<longrightarrow> own_property (processLines (earlier @ later) data) k = Some w)"
proof (intro conjI impI)
  assume "props (fst (structured_state r)) \<noteq> [] \<or> result_text r = None \<or> result_text r = Some []"
  then show "extractedData (parseVisualIntelligenceResponse (r # rs)) = fst (structured_state r)"
    and "response_text (parseVisualIntelligenceResponse (r # rs)) = trim (snd (structured_state r))"
    by (auto simp: parse_Cons_extractedData parse_Cons_response_text split: option.splits)
next
  assume "own_property (fst (structured_state r)) ''product_title'' = Some v"
  moreover from this have "props (fst (structured_state r)) \<noteq> []"
    by (rule own_property_Some_props)
  ultimately show "own_property (extractedData (parseVisualIntelligenceResponse (r # rs))) ''product_title'' = Some v"
    by (simp add: parse_Cons_extractedData split: option.splits)
next
  assume "own_property (processLines earlier data) k = Some w \<and> truthy w"
  then show "own_property (processLines (earlier @ later) data) k = Some w"
    by (simp add: processLines_append processLines_keeps_truthy)
qed

text \<open>
  A key that holds the empty string is not populated in this sense. The line "Title:  "
  matches, its value trims to the empty string and is stored under \<^verbatim>\<open>product_title\<close>; the
  test of the source takes the empty string for absent, so the next line "Title: Shirt"
  gives the key its value.
\<close>

lemma empty_value_not_populated:
  "own_property (processLines [''Title:  ''] empty_object) ''product_title'' = Some (JStr [])
   \<and> own_property (processLines ([''Title:  ''] @ [''Title: Shirt'']) empty_object) ''product_title''
       = Some (JStr ''Shirt'')
   \<and> own_property (extractedData (parseVisualIntelligenceResponse
        [\<lparr>result_text = Some (''Title:  '' @ [CHR 0x0A] @ ''Title: Shirt''), classes = None\<rparr>]))
       ''product_title'' = Some (JStr ''Shirt'')"
  by code_simp

text \<open>
  On a reply made of the records, the result for each degenerate shape: an empty result
  list, and a first result with neither classes (missing or an empty list) nor text
  (missing or empty), give no fields and an empty text, which is the condition the source
  reports as no data. A first result lacking classes gives what the fallback path reads
  from its text; a first result lacking text gives what the structured path stored.
\<close>

lemma typed_reply_shapes:
  "parseVisualIntelligenceResponse [] = \<lparr>rawResults = [], response_text = [], extractedData = empty_object\<rparr>
   \<and> noDataExtracted (parseVisualIntelligenceResponse [])
   \<and> ((classes r = None \<or> classes r = Some []) \<and> (result_text r = None \<or> result_text r = Some [])
      \<longrightarrow> parseVisualIntelligenceResponse (r # rs)
            = \<lparr>rawResults = r # rs, response_text = [], extractedData = empty_object\<rparr>
        \<and> noDataExtracted (parseVisualIntelligenceResponse (r # rs)))
   \<and> (classes r = None \<or> classes r = Some []
      \<longrightarrow> parseVisualIntelligenceResponse (r # rs)
            = (case result_text r of
                 None \<Rightarrow> \<lparr>rawResults = r # rs, response_text = [], extractedData = empty_object\<rparr>
               | Some t \<Rightarrow>
                   if t = [] then \<lparr>rawResults = r # rs, response_text = [], extractedData = empty_object\<rparr>
                   else fallbackPath t \<lparr>rawResults = r # rs, response_text = [], extractedData = empty_object\<rparr>))
   \<and> (result_text r = None
      \<longrightarrow> extractedData (parseVisualIntelligenceResponse (r # rs)) = fst (structured_state r)
        \<and> response_text (parseVisualIntelligenceResponse (r # rs)) = trim (snd (structured_state r)))
   \<and> rawResults (parseVisualIntelligenceResponse results) = results"
proof (intro conjI impI)
  show "rawResults (parseVisualIntelligenceResponse results) = results"
    by (cases results)
       (auto simp: parseVisualIntelligenceResponse_def structuredPath_def fallbackPath_def Let_def
         split: option.splits)
next
  assume "classes r = None \<or> classes r = Some []"
  then show "parseVisualIntelligenceResponse (r # rs)
            = (case result_text r of
                 None \<Rightarrow> \<lparr>rawResults = r # rs, response_text = [], extractedData = empty_object\<rparr>
               | Some t \<Rightarrow>
                   if t = [] then \<lparr>rawResults = r # rs, response_text = [], extractedData = empty_object\<rparr>
                   else fallbackPath t \<lparr>rawResults = r # rs, response_text = [], extractedData = empty_object\<rparr>)"
    by (auto simp: parseVisualIntelligenceResponse_def Let_def empty_object_def split: option.splits)
next
  assume "(classes r = None \<or> classes r = Some []) \<and> (result_text r = None \<or> result_text r = Some [])"
  then show "parseVisualIntelligenceResponse (r # rs)
            = \<lparr>rawResults = r # rs, response_text = [], extractedData = empty_object\<rparr>"
    and "noDataExtracted (parseVisualIntelligenceResponse (r # rs))"
    by (auto simp: parseVisualIntelligenceResponse_def Let_def noDataExtracted_def empty_object_def)
next
  assume "result_text r = None"
  then show "extractedData (parseVisualIntelligenceResponse (r # rs)) = fst (structured_state r)"
    and "response_text (parseVisualIntelligenceResponse (r # rs)) = trim (snd (structured_state r))"
    by (simp_all add: parse_Cons_extractedData parse_Cons_response_text)
qed (simp_all add: parseVisualIntelligenceResponse_def noDataExtracted_def empty_object_def)


theorem fallback_guard_witness:
  "props (fst (structured_state
      \<lparr>result_text = Some ''Title: Other'',
        classes = Some [\<lparr>category = Some ''Title'', classLabel = Some ''Shirt''\<rparr>]\<rparr>)) \<noteq> []
   \<and> own_property (fst (structured_state
      \<lparr>result_text = Some ''Title: Other'',
        classes = Some [\<lparr>category = Some ''Title'', classLabel = Some ''Shirt''\<rparr>]\<rparr>)) ''product_title''
       = Some (JStr ''Shirt'')
   \<and> props (extractedData (parseVisualIntelligenceResponse
        [\<lparr>result_text = Some ''Title: Other'',
          classes = Some [\<lparr>category = Some ''Title'', classLabel = Some ''Shirt''\<rparr>]\<rparr>]))
       = [(''product_title'', JStr ''Shirt'')]
   \<and> response_text (parseVisualIntelligenceResponse
        [\<lparr>result_text = Some ''Title: Other'',
          classes = Some [\<lparr>category = Some ''Title'', classLabel = Some ''Shirt''\<rparr>]\<rparr>])
       = ''Title: Shirt''
   \<and> own_property (extractedData (parseVisualIntelligenceResponse
        [\<lparr>result_text = Some ''Title: Other'',
          classes = Some [\<lparr>category = Some ''Title'', classLabel = Some ''Shirt''\<rparr>]\<rparr>])) ''product_title''
       = Some (JStr ''Shirt'')
   \<and> own_property (processLines [''Title: Shirt''] empty_object) ''product_title'' = Some (JStr ''Shirt'')
   \<and> truthy (JStr ''Shirt'')
   \<and> own_property (processLines ([''Title: Shirt''] @ [''Title: Other'']) empty_object) ''product_title''
       = Some (JStr ''Shirt'')"
proof -
  let ?r = "\<lparr>result_text = Some ''Title: Other'',
        classes = Some [\<lparr>category = Some ''Title'', classLabel = Some ''Shirt''\<rparr>]\<rparr>"
  have fields: "props (fst (structured_state ?r)) = [(''product_title'', JStr ''Shirt'')]"
    by code_simp
  have trimmed: "trim (snd (structured_state ?r)) = ''Title: Shirt''"
    by code_simp
  have h1: "props (fst (structured_state ?r)) \<noteq> [] \<or> result_text ?r = None \<or> result_text ?r = Some []"
    by (simp add: fields)
  have h2: "own_property (fst (structured_state ?r)) ''product_title'' = Some (JStr ''Shirt'')"
    by (simp add: own_property_def fields)
  have h3: "own_property (processLines [''Title: Shirt''] empty_object) ''product_title'' = Some (JStr ''Shirt'')
      \<and> truthy (JStr ''Shirt'')"
    by code_simp
  note guard = fallback_guard [where r = ?r and rs = "[]" and v = "JStr ''Shirt''"
      and earlier = "[''Title: Shirt'']" and later = "[''Title: Other'']" and data = empty_object
      and k = "''product_title''" and w = "JStr ''Shirt''"]
  from guard h1 have "extractedData (parseVisualIntelligenceResponse [?r]) = fst (structured_state ?r)"
    and "response_text (parseVisualIntelligenceResponse [?r]) = trim (snd (structured_state ?r))"
    by blast+
  moreover from guard h2
  have "own_property (extractedData (parseVisualIntelligenceResponse [?r])) ''product_title'' = Some (JStr ''Shirt'')"
    by blast
  moreover from guard h3
  have "own_property (processLines ([''Title: Shirt''] @ [''Title: Other'']) empty_object) ''product_title''
       = Some (JStr ''Shirt'')"
    by blast
  ultimately show ?thesis
    using h2 h3 by (simp add: fields trimmed)
qed

lemma typed_reply_shapes_example:
  "((classes \<lparr>result_text = None, classes = Some []\<rparr> = None
       \<or> classes \<lparr>result_text = None, classes = Some []\<rparr> = Some [])
      \<and> (result_text \<lparr>result_text = None, classes = Some []\<rparr> = None
       \<or> result_text \<lparr>result_text = None, classes = Some []\<rparr> = Some []))
   \<and> parseVisualIntelligenceResponse [\<lparr>result_text = None, classes = Some []\<rparr>]
       = \<lparr>rawResults = [\<lparr>result_text = None, classes = Some []\<rparr>], response_text = [],
          extractedData = empty_object\<rparr>
   \<and> noDataExtracted (parseVisualIntelligenceResponse [\<lparr>result_text = None, classes = Some []\<rparr>])
   \<and> props (extractedData (parseVisualIntelligenceResponse
        [\<lparr>result_text = Some (''Product Title: Blue Jacket'' @ [CHR 0x0A] @ ''Color: Navy''), classes = Some []\<rparr>]))
       = [(''product_title'', JStr ''Blue Jacket''), (''color_variant'', JStr ''Navy'')]
   \<and> props (extractedData (parseVisualIntelligenceResponse
        [\<lparr>result_text = None, classes = Some [\<lparr>category = Some ''Title'', classLabel = Some ''Shirt''\<rparr>]\<rparr>]))
       = [(''product_title'', JStr ''Shirt'')]"
proof -
  let ?empty = "\<lparr>result_text = None, classes = Some []\<rparr>"
  let ?text_only = "\<lparr>result_text = Some (''Product Title: Blue Jacket'' @ [CHR 0x0A] @ ''Color: Navy''),
      classes = Some []\<rparr>"
  let ?classes_only = "\<lparr>result_text = None,
      classes = Some [\<lparr>category = Some ''Title'', classLabel = Some ''Shirt''\<rparr>]\<rparr>"
  have h1: "(classes ?empty = None \<or> classes ?empty = Some [])
      \<and> (result_text ?empty = None \<or> result_text ?empty = Some [])"
    by simp
  have h2: "classes ?text_only = None \<or> classes ?text_only = Some []"
    by simp
  have h3: "result_text ?classes_only = None"
    by simp
  have fallback: "props (extractedData (fallbackPath (''Product Title: Blue Jacket'' @ [CHR 0x0A] @ ''Color: Navy'')
        \<lparr>rawResults = [?text_only], response_text = [], extractedData = empty_object\<rparr>))
      = [(''product_title'', JStr ''Blue Jacket''), (''color_variant'', JStr ''Navy'')]"
    by code_simp
  have structured: "props (fst (structured_state ?classes_only)) = [(''product_title'', JStr ''Shirt'')]"
    by code_simp
  from typed_reply_shapes [where r = ?empty and rs = "[]"] h1
  have "parseVisualIntelligenceResponse [?empty]
       = \<lparr>rawResults = [?empty], response_text = [], extractedData = empty_object\<rparr>"
    and "noDataExtracted (parseVisualIntelligenceResponse [?empty])"
    by blast+
  moreover from typed_reply_shapes [where r = ?text_only and rs = "[]"] h2
  have "parseVisualIntelligenceResponse [?text_only]
      = fallbackPath (''Product Title: Blue Jacket'' @ [CHR 0x0A] @ ''Color: Navy'')
          \<lparr>rawResults = [?text_only], response_text = [], extractedData = empty_object\<rparr>"
    by simp
  moreover from typed_reply_shapes [where r = ?classes_only and rs = "[]"] h3
  have "extractedData (parseVisualIntelligenceResponse [?classes_only]) = fst (structured_state ?classes_only)"
    by blast
  ultimately show ?thesis
    using h1 fallback structured by simp
qed

lemma logPreviews_loggable: "list_all loggable rs \<Longrightarrow> logPreviews rs = Inr ()"
  by (induction rs) (auto simp: loggable_def logPreview_def split: raw_result.splits raw_text.splits)

lemma processAnyClasses_items:
  "processAnyClasses (map Item items) state = Inr (processClasses items state)"
  by (induction items arbitrary: state) simp_all

lemma objects_are_items: "list_all (\<lambda>i. i \<noteq> NullItem) items \<Longrightarrow> \<exists>its. items = map Item its"
proof (induction items)
  case Nil
  then show ?case by simp
next
  case (Cons i items)
  then obtain its where "items = map Item its" by auto
  moreover from Cons.prems obtain it where "i = Item it" by (cases i) auto
  ultimately have "i # items = map Item (it # its)" by simp
  then show ?case by (rule exI)
qed

lemma loggable_raw_of: "list_all loggable (map raw_of rs)"
  by (induction rs) (simp_all add: loggable_def raw_of_def split: option.splits)

lemma any_refines_typed:
  "parseVisualIntelligenceResponse_any (map raw_of rs) =
     Inr \<lparr>any_rawResults = map raw_of rs,
          any_text = response_text (parseVisualIntelligenceResponse rs),
          any_extractedData = extractedData (parseVisualIntelligenceResponse rs)\<rparr>"
proof (cases rs)
  case Nil
  then show ?thesis
    by (simp add: parseVisualIntelligenceResponse_any_def parseVisualIntelligenceResponse_def)
next
  case (Cons r others)
  have log: "logPreviews (map raw_of rs) = Inr ()"
    by (rule logPreviews_loggable) (rule loggable_raw_of)
  show ?thesis
    unfolding parseVisualIntelligenceResponse_any_def log
    by (cases "classes r"; cases "result_text r")
       (simp_all add: Cons raw_of_def parse_Cons_extractedData parse_Cons_response_text
         structured_state_def processAnyClasses_items Let_def)
qed

lemma well_formed_returns:
  assumes "well_formed_reply results"
  shows "\<exists>p. parseVisualIntelligenceResponse_any results = Inr p \<and> any_rawResults p = results"
proof -
  from assms have log: "logPreviews results = Inr ()"
    by (simp add: well_formed_reply_def logPreviews_loggable)
  show ?thesis
  proof (cases results)
    case Nil
    then show ?thesis
      by (simp add: parseVisualIntelligenceResponse_any_def)
  next
    case (Cons first others)
    show ?thesis
    proof (cases first)
      case NullResult
      with assms Cons show ?thesis
        by (simp add: well_formed_reply_def loggable_def)
    next
      case (Result t c)
      show ?thesis
      proof (cases c)
        case ClassesAbsent
        then show ?thesis
          unfolding parseVisualIntelligenceResponse_any_def log
          by (cases t) (simp_all add: Cons Result Let_def)
      next
        case (ClassesArray items)
        with assms Cons Result obtain its where "items = map Item its"
          using objects_are_items by (auto simp: well_formed_reply_def)
        with ClassesArray show ?thesis
          unfolding parseVisualIntelligenceResponse_any_def log
          by (cases t) (simp_all add: Cons Result Let_def processAnyClasses_items)
      qed
    qed
  qed
qed

text \<open>
  The operation does throw outside these replies: on an item that is \<^verbatim>\<open>null\<close>, on a text
  that is not a string, on an element of the list that is \<^verbatim>\<open>null\<close>, be it a later one.
\<close>

lemma throws_on_malformed:
  "parseVisualIntelligenceResponse_any [Result TextAbsent (ClassesArray [NullItem])] = Inl TypeError"
  "parseVisualIntelligenceResponse_any [Result TextOther ClassesAbsent] = Inl TypeError"
  "parseVisualIntelligenceResponse_any [Result TextAbsent ClassesAbsent, NullResult] = Inl TypeError"
  by (simp_all add: parseVisualIntelligenceResponse_any_def logPreview_def)


lemma degenerate_reply:
  assumes "list_all loggable others"
    and "t = TextAbsent \<or> t = TextString []"
    and "c = ClassesAbsent \<or> c = ClassesArray []"
  shows "parseVisualIntelligenceResponse_any (Result t c # others) =
     Inr \<lparr>any_rawResults = Result t c # others, any_text = [], any_extractedData = empty_object\<rparr>"
proof -
  from assms(1,2) have "logPreviews (Result t c # others) = Inr ()"
    by (intro logPreviews_loggable) (auto simp: loggable_def)
  with assms(2,3) show ?thesis
    unfolding parseVisualIntelligenceResponse_any_def
    by (auto simp: Let_def empty_object_def)
qed

text \<open>
  Claim C8. On a reply of any shape the operation either returns or throws; it returns
  for the empty result list, and for every reply in which each element is an object whose
  text is missing or a string and each item of the first element's classes is an object,
  whether classes or text are there or not, and the result keeps the reply as
  \<^verbatim>\<open>rawResults\<close>. When the first result has neither classes (missing or an empty list) nor
  text (missing or empty), the result is no fields and an empty text: no data is a result,
  not an error. On a reply made of the records the operation returns what the sections
  above describe.
\<close>

theorem extraction_never_throws:
  "parseVisualIntelligenceResponse_any [] =
     Inr \<lparr>any_rawResults = [], any_text = [], any_extractedData = empty_object\<rparr>
   \<and> (well_formed_reply results
      \<longrightarrow> (\<exists>p. parseVisualIntelligenceResponse_any results = Inr p \<and> any_rawResults p = results))
   \<and> (list_all loggable others \<and> (t = TextAbsent \<or> t = TextString [])
        \<and> (c = ClassesAbsent \<or> c = ClassesArray [])
      \<longrightarrow> parseVisualIntelligenceResponse_any (Result t c # others) =
            Inr \<lparr>any_rawResults = Result t c # others, any_text = [], any_extractedData = empty_object\<rparr>)
   \<and> parseVisualIntelligenceResponse_any (map raw_of rs) =
       Inr \<lparr>any_rawResults = map raw_of rs,
            any_text = response_text (parseVisualIntelligenceResponse rs),
            any_extractedData = extractedData (parseVisualIntelligenceResponse rs)\<rparr>"
proof (intro conjI impI)
  show "parseVisualIntelligenceResponse_any [] =
     Inr \<lparr>any_rawResults = [], any_text = [], any_extractedData = empty_object\<rparr>"
    by (simp add: parseVisualIntelligenceResponse_any_def)
next
  assume "well_formed_reply results"
  then show "\<exists>p. parseVisualIntelligenceResponse_any results = Inr p \<and> any_rawResults p = results"
    by (rule well_formed_returns)
next
  assume "list_all loggable others \<and> (t = TextAbsent \<or> t = TextString [])
        \<and> (c = ClassesAbsent \<or> c = ClassesArray [])"
  then show "parseVisualIntelligenceResponse_any (Result t c # others) =
            Inr \<lparr>any_rawResults = Result t c # others, any_text = [], any_extractedData = empty_object\<rparr>"
    using degenerate_reply by blast
next
  show "parseVisualIntelligenceResponse_any (map raw_of rs) =
       Inr \<lparr>any_rawResults = map raw_of rs,
            any_text = response_text (parseVisualIntelligenceResponse rs),
            any_extractedData = extractedData (parseVisualIntelligenceResponse rs)\<rparr>"
    by (rule any_refines_typed)
qed

theorem extraction_never_throws_witness:
  "well_formed_reply [Result (TextString ''Color: Navy'') (ClassesArray []),
                      Result TextAbsent (ClassesArray [NullItem])]
   \<and> (\<exists>p. parseVisualIntelligenceResponse_any
              [Result (TextString ''Color: Navy'') (ClassesArray []),
               Result TextAbsent (ClassesArray [NullItem])] = Inr p
          \<and> any_rawResults p = [Result (TextString ''Color: Navy'') (ClassesArray []),
                                 Result TextAbsent (ClassesArray [NullItem])])
   \<and> list_all loggable [Result (TextString ''x'') ClassesAbsent]
   \<and> (TextString [] = TextAbsent \<or> TextString [] = TextString [])
   \<and> (ClassesArray [] = ClassesAbsent \<or> ClassesArray [] = ClassesArray [])
   \<and> parseVisualIntelligenceResponse_any
        (Result (TextString []) (ClassesArray []) # [Result (TextString ''x'') ClassesAbsent]) =
        Inr \<lparr>any_rawResults = Result (TextString []) (ClassesArray []) # [Result (TextString ''x'') ClassesAbsent],
             any_text = [], any_extractedData = empty_object\<rparr>"
proof -
  let ?reply = "[Result (TextString ''Color: Navy'') (ClassesArray []),
                 Result TextAbsent (ClassesArray [NullItem])]"
  have wf: "well_formed_reply ?reply"
    by (simp add: well_formed_reply_def loggable_def)
  have shape: "list_all loggable [Result (TextString ''x'') ClassesAbsent]
      \<and> (TextString [] = TextAbsent \<or> TextString [] = TextString [])
      \<and> (ClassesArray [] = ClassesAbsent \<or> ClassesArray [] = ClassesArray [])"
    by (simp add: loggable_def)
  note never = extraction_never_throws [where results = ?reply
      and others = "[Result (TextString ''x'') ClassesAbsent]" and t = "TextString []" and c = "ClassesArray []"
      and rs = "[]"]
  from never wf
  have "\<exists>p. parseVisualIntelligenceResponse_any ?reply = Inr p \<and> any_rawResults p = ?reply"
    by blast
  moreover from never shape
  have "parseVisualIntelligenceResponse_any
        (Result (TextString []) (ClassesArray []) # [Result (TextString ''x'') ClassesAbsent]) =
        Inr \<lparr>any_rawResults = Result (TextString []) (ClassesArray []) # [Result (TextString ''x'') ClassesAbsent],
             any_text = [], any_extractedData = empty_object\<rparr>"
    by blast
  ultimately show ?thesis
    using wf shape by blast
qed

end
